theory Spec2Isabelle
  imports Main
begin

section \<open>Values and transaction states\<close>

text \<open>
  JavaScript values as far as the code inspects them. The validator only asks for the
  runtime type of a value (\<open>R.is(Number)\<close>, \<open>R.is(String)\<close>), so a number is
  represented by an integer; the stores copy values without looking inside.
\<close>

datatype jsval =
    JUndefined
  | JNull
  | JBool bool
  | JNumber int
  | JString string

text \<open>\<open>State.TransactionStates\<close> of the declaration package.\<close>

datatype TransactionStates =
    TransactionRunning
  | TransactionPaused
  | TransactionCompleted
  | TransactionFailed
  | TransactionCancelled
  | TransactionCompensated

section \<open>The Redis transaction instance store\<close>

text \<open>
  \<open>Event.ITransactionUpdate\<close> carries the three fields the store reads;
  \<open>Transaction.ITransaction\<close> has them too, together with \<open>endTime\<close> and whatever
  else the caller stored (the extension slot of the record scheme), which the object
  spread \<open>{...transaction, ...}\<close> copies unchanged. The field \<open>output\<close> is written
  \<open>output'\<close>.
\<close>

record ITransactionUpdate =
  transactionId :: string
  status :: TransactionStates
  output' :: jsval

record ITransaction = ITransactionUpdate +
  endTime :: "nat option"

text \<open>
  The Redis client is a map from keys to stored values. The store writes
  \<open>JSON.stringify(transaction)\<close> and reads it back with \<open>JSON.parse\<close>; the model keeps
  the value itself. A stored string is never empty, so the test \<open>!transactionString\<close>
  is the test for an absent key.
\<close>

type_synonym 'v redis = "string \<rightharpoonup> 'v"

datatype error =
    AlreadyExists string
  | NotFound string
  | CannotChangeStatus string TransactionStates TransactionStates

definition transactionKey :: "string \<Rightarrow> string \<Rightarrow> string" where
  "transactionKey prefix tid = prefix @ ''.transaction.'' @ tid"

text \<open>\<open>SETNX\<close>: writes only when the key is absent and answers 1, otherwise answers 0.\<close>

definition setnx :: "'v redis \<Rightarrow> string \<Rightarrow> 'v \<Rightarrow> nat \<times> 'v redis" where
  "setnx client key v =
     (case client key of
        None \<Rightarrow> (1, client(key \<mapsto> v))
      | Some _ \<Rightarrow> (0, client))"

definition create ::
  "string \<Rightarrow> 'a ITransaction_scheme \<Rightarrow> 'a ITransaction_scheme redis
     \<Rightarrow> (error + 'a ITransaction_scheme) \<times> 'a ITransaction_scheme redis" where
  "create prefix transaction client =
     (case setnx client (transactionKey prefix (transactionId transaction)) transaction of
        (isSet, client') \<Rightarrow>
          if isSet \<noteq> 1 then (Inl (AlreadyExists (transactionId transaction)), client')
          else (Inr transaction, client'))"

text \<open>
  \<open>update\<close> takes the table \<open>State.TransactionNextStates\<close> of the declaration package
  and the value of \<open>Date.now()\<close> as parameters.
\<close>

definition update ::
  "(TransactionStates \<Rightarrow> TransactionStates list) \<Rightarrow> nat \<Rightarrow> string
     \<Rightarrow> 'u ITransactionUpdate_scheme \<Rightarrow> 'a ITransaction_scheme redis
     \<Rightarrow> (error + 'a ITransaction_scheme) \<times> 'a ITransaction_scheme redis" where
  "update TransactionNextStates now prefix transactionUpdate client =
     (let key = transactionKey prefix (transactionId transactionUpdate) in
      case client key of
        None \<Rightarrow> (Inl (NotFound (transactionId transactionUpdate)), client)
      | Some transaction \<Rightarrow>
          if status transactionUpdate \<notin> set (TransactionNextStates (status transaction))
          then (Inl (CannotChangeStatus (transactionId transaction) (status transaction)
                       (status transactionUpdate)), client)
          else
            let updatedTransaction = transaction
                  \<lparr> status := status transactionUpdate,
                    output' := output' transactionUpdate,
                    endTime :=
                      (if status transactionUpdate \<in> set [TransactionCompleted, TransactionFailed]
                       then Some now else None) \<rparr>
            in (Inr updatedTransaction, client(key \<mapsto> updatedTransaction)))"

definition get :: "string \<Rightarrow> string \<Rightarrow> 'v redis \<Rightarrow> 'v option" where
  "get prefix tid client = client (transactionKey prefix tid)"

definition delete :: "string \<Rightarrow> string \<Rightarrow> 'v redis \<Rightarrow> 'v redis" where
  "delete prefix tid client = client(transactionKey prefix tid := None)"

text \<open>
  A table in which a Running or Paused transaction may move to every status and every
  other status is final, used to run \<open>update\<close> on concrete stores. The tests of the
  repository drive a Running transaction to Completed, to Failed and to Compensated
  through \<open>transactionInstanceStore.update\<close>.
\<close>

definition exampleNextStates :: "TransactionStates \<Rightarrow> TransactionStates list" where
  "exampleNextStates s =
     (if s = TransactionRunning \<or> s = TransactionPaused
      then [TransactionRunning, TransactionPaused, TransactionCompleted, TransactionFailed,
            TransactionCancelled, TransactionCompensated]
      else [])"

definition exampleTransaction :: "TransactionStates \<Rightarrow> ITransaction" where
  "exampleTransaction s =
     \<lparr> transactionId = ''tx1'', status = s, output' = JUndefined, endTime = None \<rparr>"

definition exampleClient :: "TransactionStates \<Rightarrow> ITransaction redis" where
  "exampleClient s = [transactionKey ''melonade'' ''tx1'' \<mapsto> exampleTransaction s]"

section \<open>The workflow definition validator\<close>

text \<open>
  The enumerations of \<open>constants/workflow\<close> and \<open>constants/task\<close>. Their members are
  prefixed with the kind of the enumeration, since several of them share member names.
\<close>

datatype FailureStrategies =
    StrategyFailed
  | StrategyRetry
  | StrategyCompensate
  | StrategyCompensateThenRetry
  | StrategyRecoveryWorkflow

datatype TaskTypes =
    TypeTask
  | TypeParallel
  | TypeSubWorkflow
  | TypeDecision
  | TypeCompensate
  | TypeSchedule

text \<open>
  \<open>AllTaskType\<close>: the tagged union of the four task interfaces. Every node carries
  \<open>name\<close> and \<open>taskReferenceName\<close> (in this order); \<open>inputParameters\<close> and
  \<open>overideOptions\<close> are never read by the validator and are left out. A Decision
  carries its \<open>decisions\<close> in the enumeration order of the object's keys, then its
  \<open>defaultDecision\<close>; a missing list is the empty list (\<open>R.propOr([])\<close>).
\<close>

datatype workflowRef = WorkflowRef jsval jsval

datatype AllTaskType =
    ITask string string
  | IParallelTask string string "AllTaskType list list"
  | ISubWorkflowTask string string workflowRef
  | IDecisionTask string string "(string \<times> AllTaskType list) list" "AllTaskType list"

fun taskReferenceName :: "AllTaskType \<Rightarrow> string" where
  "taskReferenceName (ITask nm ref) = ref"
| "taskReferenceName (IParallelTask nm ref lanes) = ref"
| "taskReferenceName (ISubWorkflowTask nm ref w) = ref"
| "taskReferenceName (IDecisionTask nm ref ds dd) = ref"

fun taskType :: "AllTaskType \<Rightarrow> TaskTypes" where
  "taskType (ITask nm ref) = TypeTask"
| "taskType (IParallelTask nm ref lanes) = TypeParallel"
| "taskType (ISubWorkflowTask nm ref w) = TypeSubWorkflow"
| "taskType (IDecisionTask nm ref ds dd) = TypeDecision"

datatype retryConfig = RetryConfig jsval jsval

text \<open>
  \<open>IWorkflowDefinition\<close>; its field \<open>rev\<close> is written \<open>rev'\<close>. The interface
  declares \<open>rev\<close> a number while the tests pass a string, so it is kept as a value.
\<close>

record IWorkflowDefinition =
  name :: string
  rev' :: jsval
  tasks :: "AllTaskType list"
  failureStrategy :: "FailureStrategies option"
  retry :: "retryConfig option"
  recoveryWorkflow :: "workflowRef option"

text \<open>
  What the validator imports from modules that are not part of the sources at hand:
  \<open>isValidName\<close> and \<open>isValidRev\<close> of \<open>utils/common\<close> and \<open>TaskTypesList\<close> of
  \<open>constants/task\<close>. They are parameters of the model.
\<close>

record externals =
  isValidName :: "jsval \<Rightarrow> bool"
  isValidRev :: "jsval \<Rightarrow> bool"
  TaskTypesList :: "TaskTypes list"

fun isNumber :: "jsval \<Rightarrow> bool" where
  "isNumber (JNumber n) = True"
| "isNumber v = False"

fun isString :: "jsval \<Rightarrow> bool" where
  "isString (JString s) = True"
| "isString v = False"

text \<open>\<open>R.path\<close> into the optional objects: a missing object gives \<open>undefined\<close>.\<close>

fun path_recoveryWorkflow_name :: "'a IWorkflowDefinition_scheme \<Rightarrow> jsval" where
  "path_recoveryWorkflow_name wd =
     (case recoveryWorkflow wd of None \<Rightarrow> JUndefined | Some (WorkflowRef n r) \<Rightarrow> n)"

fun path_recoveryWorkflow_rev :: "'a IWorkflowDefinition_scheme \<Rightarrow> jsval" where
  "path_recoveryWorkflow_rev wd =
     (case recoveryWorkflow wd of None \<Rightarrow> JUndefined | Some (WorkflowRef n r) \<Rightarrow> r)"

fun path_retry_limit :: "'a IWorkflowDefinition_scheme \<Rightarrow> jsval" where
  "path_retry_limit wd =
     (case retry wd of None \<Rightarrow> JUndefined | Some (RetryConfig l d) \<Rightarrow> l)"

fun path_retry_delaySecond :: "'a IWorkflowDefinition_scheme \<Rightarrow> jsval" where
  "path_retry_delaySecond wd =
     (case retry wd of None \<Rightarrow> JUndefined | Some (RetryConfig l d) \<Rightarrow> d)"

text \<open>Despite their names, both functions answer True when the configuration is wrong.\<close>

definition isRecoveryWorkflowConfigValid :: "'a IWorkflowDefinition_scheme \<Rightarrow> bool" where
  "isRecoveryWorkflowConfigValid wd =
     (failureStrategy wd = Some StrategyRecoveryWorkflow \<and>
      (\<not> isString (path_recoveryWorkflow_name wd) \<or> \<not> isNumber (path_recoveryWorkflow_rev wd)))"

definition isFailureStrategiesConfigValid :: "'a IWorkflowDefinition_scheme \<Rightarrow> bool" where
  "isFailureStrategiesConfigValid wd =
     (failureStrategy wd = Some StrategyRetry \<and>
      (\<not> isNumber (path_retry_limit wd) \<or> \<not> isNumber (path_retry_delaySecond wd)))"

definition isEmptyTasks :: "'a IWorkflowDefinition_scheme \<Rightarrow> bool" where
  "isEmptyTasks wd = (tasks wd = [])"

text \<open>\<open>R.pathOr('', ['workflow', 'name'])\<close>: the default replaces \<open>undefined\<close> and \<open>null\<close>.\<close>

fun isValidWorkflowName :: "externals \<Rightarrow> workflowRef \<Rightarrow> bool" where
  "isValidWorkflowName I (WorkflowRef n r) =
     isValidName I (if n = JUndefined \<or> n = JNull then JString [] else n)"

fun isValidWorkflowRev :: "externals \<Rightarrow> workflowRef \<Rightarrow> bool" where
  "isValidWorkflowRev I (WorkflowRef n r) = isValidRev I r"

text \<open>The decimal digits of an array index, as a template string prints them.\<close>

definition digitChar :: "nat \<Rightarrow> char" where
  "digitChar d = ''0123456789'' ! d"

function showNat :: "nat \<Rightarrow> string" where
  "showNat n = (if n < 10 then [digitChar n] else showNat (n div 10) @ [digitChar (n mod 10)])"
  by pat_completeness auto
termination
  by (relation "measure id") auto

declare showNat.simps [simp del]

text \<open>
  \<open>TasksValidateOutput\<close>. The object \<open>taskReferenceNames\<close> starts as the literal
  \<open>{}\<close>, so besides its own properties (a map) it answers for the properties every
  object inherits from \<open>Object.prototype\<close>, whose values are functions or objects.
  The validator reads \<open>result.taskReferenceNames[key]\<close> as a condition: an own property
  counts when its value, a string, is not empty; an inherited one always counts.
\<close>

record TasksValidateOutput =
  errors :: "string list"
  taskReferenceNames :: "string \<rightharpoonup> string"

definition objectPrototypeKeys :: "string list" where
  "objectPrototypeKeys =
     [''constructor'', ''hasOwnProperty'', ''isPrototypeOf'', ''propertyIsEnumerable'',
      ''toLocaleString'', ''toString'', ''valueOf'', ''__proto__'',
      ''__defineGetter__'', ''__defineSetter__'', ''__lookupGetter__'', ''__lookupSetter__'']"

definition truthyProperty :: "(string \<rightharpoonup> string) \<Rightarrow> string \<Rightarrow> bool" where
  "truthyProperty obj key =
     (case obj key of
        Some v \<Rightarrow> v \<noteq> []
      | None \<Rightarrow> key \<in> set objectPrototypeKeys)"

definition push :: "TasksValidateOutput \<Rightarrow> string \<Rightarrow> TasksValidateOutput" where
  "push result e = result\<lparr> errors := errors result @ [e] \<rparr>"

text \<open>
  The checks that \<open>validateTasks\<close> makes on every node before it looks at the node's
  type: name, reference name, duplicate reference name, type.
\<close>

definition validateBase ::
  "externals \<Rightarrow> string \<Rightarrow> string \<Rightarrow> TaskTypes \<Rightarrow> string
     \<Rightarrow> TasksValidateOutput \<Rightarrow> TasksValidateOutput" where
  "validateBase I nm ref ty currentRoot result =
     (let r1 = (if \<not> isValidName I (JString nm)
                then push result (currentRoot @ ''.name is invalid'') else result);
          r2 = (if \<not> isValidName I (JString ref)
                then push r1 (currentRoot @ ''.taskReferenceName is invalid'') else r1);
          r3 = (if truthyProperty (taskReferenceNames r2) ref
                then push r2 (currentRoot @ ''.taskReferenceName is duplicated'')
                else r2\<lparr> taskReferenceNames := (taskReferenceNames r2)(ref \<mapsto> ref) \<rparr>)
      in if ty \<notin> set (TaskTypesList I)
         then push r3 (currentRoot @ ''.type is invalid'') else r3)"

text \<open>
  \<open>validateTasks\<close> is a \<open>reduce\<close> over the task list that threads one result object
  through every nested list. \<open>validateTasksFrom\<close> is that loop from a given index,
  \<open>validateTask\<close> its body, \<open>validateDecisions\<close> the inner \<open>reduce\<close> over the
  pairs of \<open>decisions\<close> and \<open>validateParallel\<close> the inner \<open>reduce\<close> over the lanes.
\<close>

function (sequential) validateTask ::
      "externals \<Rightarrow> AllTaskType \<Rightarrow> string \<Rightarrow> TasksValidateOutput \<Rightarrow> TasksValidateOutput"
  and validateTasksFrom ::
      "externals \<Rightarrow> nat \<Rightarrow> AllTaskType list \<Rightarrow> string \<Rightarrow> TasksValidateOutput
         \<Rightarrow> TasksValidateOutput"
  and validateDecisions ::
      "externals \<Rightarrow> (string \<times> AllTaskType list) list \<Rightarrow> string \<Rightarrow> TasksValidateOutput
         \<Rightarrow> TasksValidateOutput"
  and validateParallel ::
      "externals \<Rightarrow> nat \<Rightarrow> AllTaskType list list \<Rightarrow> string \<Rightarrow> TasksValidateOutput
         \<Rightarrow> TasksValidateOutput"
where
  "validateTask I (ITask nm ref) currentRoot result =
     validateBase I nm ref TypeTask currentRoot result"
| "validateTask I (IDecisionTask nm ref decisions defaultDecision) currentRoot result =
     (let r = validateBase I nm ref TypeDecision currentRoot result;
          r' = (if defaultDecision = []
                then push r (currentRoot @ ''.defaultDecision cannot be empty'') else r);
          defaultDecisionResult =
            validateTasksFrom I 0 defaultDecision (currentRoot @ ''.defaultDecision'') r'
      in validateDecisions I decisions currentRoot defaultDecisionResult)"
| "validateTask I (IParallelTask nm ref parallelTasks) currentRoot result =
     validateParallel I 0 parallelTasks currentRoot
       (validateBase I nm ref TypeParallel currentRoot result)"
| "validateTask I (ISubWorkflowTask nm ref w) currentRoot result =
     (let r = validateBase I nm ref TypeSubWorkflow currentRoot result;
          r' = (if \<not> isValidWorkflowName I w
                then push r (currentRoot @ ''.workflow.name is invalid'') else r)
      in if \<not> isValidWorkflowRev I w
         then push r' (currentRoot @ ''.workflow.rev is invalid'') else r')"
| "validateTasksFrom I index [] root result = result"
| "validateTasksFrom I index (task # rest) root result =
     validateTasksFrom I (Suc index) rest root
       (validateTask I task (root @ ''.tasks['' @ showNat index @ '']'') result)"
| "validateDecisions I [] currentRoot result = result"
| "validateDecisions I ((decision, decisionTasks) # rest) currentRoot result =
     validateDecisions I rest currentRoot
       (validateTasksFrom I 0 decisionTasks
          (currentRoot @ ''.decisions['' @ [CHR 0x22] @ decision @ [CHR 0x22] @ '']'') result)"
| "validateParallel I index [] currentRoot result = result"
| "validateParallel I index (lane # rest) currentRoot result =
     validateParallel I (Suc index) rest currentRoot
       (validateTasksFrom I 0 lane
          (currentRoot @ ''.parallelTasks['' @ showNat index @ '']'') result)"
  by pat_completeness auto
termination
  by (relation "measure (\<lambda>x. case x of
        Inl (Inl (I, t, r, res)) \<Rightarrow> size t
      | Inl (Inr (I, i, ts, r, res)) \<Rightarrow> size_list size ts
      | Inr (Inl (I, ds, r, res)) \<Rightarrow> size_list (size_prod (\<lambda>_. 0) (size_list size)) ds
      | Inr (Inr (I, i, ls, r, res)) \<Rightarrow> size_list (size_list size) ls)") auto

definition validateTasks ::
  "externals \<Rightarrow> AllTaskType list \<Rightarrow> string \<Rightarrow> TasksValidateOutput \<Rightarrow> TasksValidateOutput" where
  "validateTasks I ts root defaultResult = validateTasksFrom I 0 ts root defaultResult"

definition workflowValidation :: "externals \<Rightarrow> 'a IWorkflowDefinition_scheme \<Rightarrow> string list" where
  "workflowValidation I wd =
     (if \<not> isValidName I (JString (name wd)) then [''workflowDefinition.name is invalid'']
      else [])
   @ (if \<not> isValidRev I (rev' wd) then [''workflowDefinition.rev is invalid''] else [])
   @ (if isRecoveryWorkflowConfigValid wd
      then [''workflowDefinition.recoveryWorkflow is invalid''] else [])
   @ (if isFailureStrategiesConfigValid wd then [''workflowDefinition.retry is invalid'']
      else [])
   @ (if isEmptyTasks wd then [''workflowDefinition.tasks cannot be empty''] else [])"

text \<open>
  The constructor of \<open>WorkflowDefinition\<close>: it throws an \<open>Error\<close> whose message is the
  collected errors joined by newlines (here: the list of errors), or keeps the
  definition.
\<close>

definition validationErrors :: "externals \<Rightarrow> 'a IWorkflowDefinition_scheme \<Rightarrow> string list" where
  "validationErrors I wd =
     errors (validateTasks I (tasks wd) ''workflowDefinition''
               \<lparr> errors = workflowValidation I wd, taskReferenceNames = Map.empty \<rparr>)"

definition WorkflowDefinition ::
  "externals \<Rightarrow> 'a IWorkflowDefinition_scheme
     \<Rightarrow> string list + 'a IWorkflowDefinition_scheme" where
  "WorkflowDefinition I wd =
     (if validationErrors I wd \<noteq> [] then Inl (validationErrors I wd) else Inr wd)"

text \<open>
  An instance of the imported parts, used to run the validator on concrete
  definitions: a name is a non-empty string of letters, digits, \<open>-\<close> and \<open>_\<close>, a
  revision is such a string or a number, and the four task interfaces are the known
  types.
\<close>

definition nameChars :: string where
  "nameChars = ''abcdefghijklmnopqrstuvwxyzABCDEFGHIJKLMNOPQRSTUVWXYZ0123456789-_''"

fun exampleIsValidName :: "jsval \<Rightarrow> bool" where
  "exampleIsValidName (JString s) = (s \<noteq> [] \<and> list_all (\<lambda>c. c \<in> set nameChars) s)"
| "exampleIsValidName v = False"

definition exampleIsValidRev :: "jsval \<Rightarrow> bool" where
  "exampleIsValidRev v = (exampleIsValidName v \<or> isNumber v)"

definition exampleExternals :: externals where
  "exampleExternals =
     \<lparr> isValidName = exampleIsValidName, isValidRev = exampleIsValidRev,
       TaskTypesList = [TypeTask, TypeParallel, TypeSubWorkflow, TypeDecision] \<rparr>"

definition exampleDefinition :: IWorkflowDefinition where
  "exampleDefinition =
     \<lparr> name = ''name'', rev' = JString ''rev'',
       tasks = [ITask ''t1'' ''t1'', ITask ''t2'' ''t2'', ITask ''t3'' ''t3''],
       failureStrategy = Some StrategyFailed,
       retry = None, recoveryWorkflow = None \<rparr>"

section \<open>The state engine\<close>

text \<open>
  The state engine (\<open>state.processUpdateTasks\<close>), the store wrappers it calls and
  the in-memory instance stores are not among the sources at hand; only their
  integration test is. Every definition of this section is therefore written from the
  specification (its sections 3, 4.2, 4.3, 4.5 and 6) and says so. The model covers a
  workflow as a Sequence of nodes: the expansion of Parallel, Decision and SubWorkflow
  nodes belongs to the system task executor, which the specification leaves out of
  scope. The engine reads the time from a clock, which counts in the unit of the retry
  delays. The resolution of \<open>${...}\<close> references, the creation and start times, the
  end times of workflow and task instances and the logs are not modelled, and neither
  is the sending of the timers for ackTimeout and timeout, whose redelivery reaches the
  engine as an AckTimeOut or Timeout update.
\<close>

datatype TaskStates =
    TaskScheduled
  | TaskInprogress
  | TaskCompleted
  | TaskFailed
  | TaskAckTimeOut
  | TaskTimeout

datatype WorkflowStates =
    WorkflowRunning
  | WorkflowPaused
  | WorkflowCompleted
  | WorkflowFailed
  | WorkflowCancelled
  | WorkflowTimeout

datatype WorkflowTypes =
    KindWorkflow
  | KindCompensateWorkflow
  | KindCompensateThenRetryWorkflow
  | KindRetryWorkflow
  | KindRecoveryWorkflow
  | KindSubWorkflow

text \<open>
  Modelled from the spec: a task node of a definition as the engine needs it (section 3),
  with the retry settings that apply to the node and the input its instance receives.
\<close>

record TaskNode =
  nodeName :: string
  nodeRef :: string
  nodeType :: TaskTypes
  nodeInput :: jsval
  retryLimit :: nat
  retryDelay :: nat

text \<open>
  Modelled from the spec: the WorkflowDefinition of section 3, identified by name and
  revision, with its ordered tasks, its failure strategy, the limit of its \<open>retry\<close>
  and its optional recovery workflow.
\<close>

record EngineDefinition =
  defName :: string
  defRev :: string
  defTasks :: "TaskNode list"
  defFailureStrategy :: FailureStrategies
  defRetryLimit :: nat
  defRecoveryWorkflow :: "(string \<times> string) option"

text \<open>
  Modelled from the spec: the TaskInstance of section 3. \<open>tIndex\<close> is the position of
  its node in the enclosing list, by which the next sibling is found (section 4.2).
\<close>

record TaskInstance =
  taskId :: nat
  tTransactionId :: string
  tWorkflowId :: nat
  tIndex :: nat
  tName :: string
  tRef :: string
  tType :: TaskTypes
  tStatus :: TaskStates
  tInput :: jsval
  tOutput :: jsval
  tRetries :: nat
  tRetryLimit :: nat
  tRetryDelay :: nat
  tIsRetried :: bool

text \<open>Modelled from the spec: the WorkflowInstance of section 3.\<close>

record WorkflowInstance =
  workflowId :: nat
  wTransactionId :: string
  wType :: WorkflowTypes
  wStatus :: WorkflowStates
  wDefinition :: EngineDefinition
  wRetries :: nat

text \<open>
  Modelled from the spec: the Transaction of section 3, which also keeps the definition
  it was started with.
\<close>

record EngineTransaction = ITransaction +
  workflowDefinition :: EngineDefinition

text \<open>
  Modelled from the spec: the error kinds of sections 4.2 and 7 that the engine itself
  raises; \<open>Unexpected\<close> stands for any other exception caught while an update is
  applied.
\<close>

datatype engineError =
    TaskNotFound
  | InvalidTransition
  | TransactionNotFound
  | TransactionAlreadyExists
  | Unexpected

text \<open>
  Modelled from the spec: everything the engine does to the outside, in the order in
  which it does it: the calls of the instance stores (section 4.5), the events of
  \<open>sendEvent\<close> with the instance as their details, the calls of
  \<open>dispatch(task, transactionId, isSystem)\<close> and the calls of
  \<open>sendTimer({scheduledAt, task})\<close> (section 6).
\<close>

datatype StoreCall =
    TransactionCreate
  | TransactionUpdate
  | WorkflowCreate
  | WorkflowUpdate
  | TaskCreate
  | TaskUpdate
  | TaskReload

datatype Event =
    TransactionEvent EngineTransaction
  | WorkflowEvent WorkflowInstance
  | TaskEvent TaskInstance
  | ErrorEvent string engineError

datatype Effect =
    Store StoreCall
  | SendEvent Event
  | Dispatch TaskInstance string bool
  | SendTimer nat TaskInstance

text \<open>
  Modelled from the spec: the persisted state (section 6), three keyspaces and the
  definition registry, together with the trace of effects, the source of fresh
  identifiers and the clock. Task instances are kept in the order of their creation.
\<close>

record Engine =
  transactionInstances :: "string \<rightharpoonup> EngineTransaction"
  workflowInstances :: "nat \<rightharpoonup> WorkflowInstance"
  taskInstances :: "TaskInstance list"
  workflowDefinitions :: "(string \<times> string) \<rightharpoonup> EngineDefinition"
  trace :: "Effect list"
  nextId :: nat
  clock :: nat

definition emit :: "Effect \<Rightarrow> Engine \<Rightarrow> Engine" where
  "emit e s = s\<lparr> trace := trace s @ [e] \<rparr>"

definition andThen :: "('e + 's) \<Rightarrow> ('s \<Rightarrow> 'e + 't) \<Rightarrow> 'e + 't" where
  "andThen r f = (case r of Inl e \<Rightarrow> Inl e | Inr s \<Rightarrow> f s)"

text \<open>
  Modelled from the spec: the system task types, which the executor of section 4.7 runs
  in process; their dispatch carries \<open>isSystem = true\<close>.
\<close>

definition isSystemType :: "TaskTypes \<Rightarrow> bool" where
  "isSystemType ty = (ty \<in> set [TypeDecision, TypeParallel, TypeSubWorkflow, TypeSchedule])"

text \<open>
  Modelled from the spec: creation of the next TaskInstance (section 4.2): it is created
  in Scheduled through \<open>taskInstance.create\<close>, dispatched, and a TASK Scheduled event
  is emitted.
\<close>

definition newTask :: "WorkflowInstance \<Rightarrow> nat \<Rightarrow> TaskNode \<Rightarrow> nat \<Rightarrow> TaskInstance" where
  "newTask w i n k =
     \<lparr> taskId = k, tTransactionId = wTransactionId w, tWorkflowId = workflowId w,
       tIndex = i, tName = nodeName n, tRef = nodeRef n, tType = nodeType n,
       tStatus = TaskScheduled, tInput = nodeInput n, tOutput = JUndefined, tRetries = 0,
       tRetryLimit = retryLimit n, tRetryDelay = retryDelay n, tIsRetried = False \<rparr>"

definition announce :: "TaskInstance \<Rightarrow> Engine \<Rightarrow> Engine" where
  "announce t s =
     emit (SendEvent (TaskEvent t))
       (emit (Dispatch t (tTransactionId t) (isSystemType (tType t))) s)"

definition scheduleTask :: "WorkflowInstance \<Rightarrow> nat \<Rightarrow> TaskNode \<Rightarrow> Engine \<Rightarrow> Engine" where
  "scheduleTask w i n s =
     (let t = newTask w i n (nextId s) in
      announce t
        (emit (Store TaskCreate)
           (s\<lparr> taskInstances := taskInstances s @ [t], nextId := Suc (nextId s) \<rparr>)))"

text \<open>
  Modelled from the spec: \<open>workflowInstance.create\<close> for a new instance in Running,
  with its WORKFLOW Running event.
\<close>

definition createWorkflow ::
  "string \<Rightarrow> WorkflowTypes \<Rightarrow> EngineDefinition \<Rightarrow> nat \<Rightarrow> Engine \<Rightarrow> WorkflowInstance \<times> Engine" where
  "createWorkflow tid ty d n s =
     (let w = \<lparr> workflowId = nextId s, wTransactionId = tid, wType = ty,
                 wStatus = WorkflowRunning, wDefinition = d, wRetries = n \<rparr>
      in (w, emit (SendEvent (WorkflowEvent w))
               (emit (Store WorkflowCreate)
                  (s\<lparr> workflowInstances := (workflowInstances s)(nextId s \<mapsto> w),
                      nextId := Suc (nextId s) \<rparr>))))"

text \<open>
  Modelled from the spec: \<open>update\<close> of a workflow instance and of a transaction
  (section 4.5). A terminal instance is immutable (section 3, lifecycle): the update
  of an instance that is neither Running nor Paused is an InvalidTransition. The
  \<open>endTime\<close> of a transaction is set exactly on its terminal statuses (section 3,
  invariant 4).
\<close>

definition terminalTransaction :: "TransactionStates \<Rightarrow> bool" where
  "terminalTransaction st =
     (st \<in> set [TransactionCompleted, TransactionFailed, TransactionCancelled,
                 TransactionCompensated])"

definition ended :: "TransactionStates \<Rightarrow> nat \<Rightarrow> EngineTransaction \<Rightarrow> EngineTransaction" where
  "ended st now x =
     x\<lparr> status := st, endTime := (if terminalTransaction st then Some now else None) \<rparr>"

definition updateWorkflow :: "nat \<Rightarrow> WorkflowStates \<Rightarrow> Engine \<Rightarrow> engineError + Engine" where
  "updateWorkflow wid st s =
     (case workflowInstances s wid of
        None \<Rightarrow> Inl Unexpected
      | Some w \<Rightarrow>
          if wStatus w = WorkflowRunning \<or> wStatus w = WorkflowPaused
          then Inr (emit (SendEvent (WorkflowEvent (w\<lparr> wStatus := st \<rparr>)))
                 (emit (Store WorkflowUpdate)
                    (s\<lparr> workflowInstances :=
                          (workflowInstances s)(wid \<mapsto> w\<lparr> wStatus := st \<rparr>) \<rparr>)))
          else Inl InvalidTransition)"

definition updateTransaction ::
  "string \<Rightarrow> TransactionStates \<Rightarrow> Engine \<Rightarrow> engineError + Engine" where
  "updateTransaction tid st s =
     (case transactionInstances s tid of
        None \<Rightarrow> Inl TransactionNotFound
      | Some x \<Rightarrow>
          if status x = TransactionRunning \<or> status x = TransactionPaused
          then Inr (emit (SendEvent (TransactionEvent (ended st (clock s) x)))
                 (emit (Store TransactionUpdate)
                    (s\<lparr> transactionInstances :=
                          (transactionInstances s)(tid \<mapsto> ended st (clock s) x) \<rparr>)))
          else Inl InvalidTransition)"

text \<open>
  Modelled from the spec: the end of a workflow with no runnable node left
  (sections 4.2 and 4.3). The instance becomes Completed; the transaction becomes
  Compensated after a CompensateWorkflow and Completed otherwise; after a
  CompensateThenRetryWorkflow a fresh instance of the original definition is started
  instead and the transaction stays Running.
\<close>

definition completeFinal :: "WorkflowInstance \<Rightarrow> Engine \<Rightarrow> engineError + Engine" where
  "completeFinal w s =
     andThen (updateWorkflow (workflowId w) WorkflowCompleted s)
       (updateTransaction (wTransactionId w)
          (if wType w = KindCompensateWorkflow then TransactionCompensated
           else TransactionCompleted))"

definition startWorkflow ::
  "string \<Rightarrow> WorkflowTypes \<Rightarrow> EngineDefinition \<Rightarrow> nat \<Rightarrow> Engine \<Rightarrow> engineError + Engine" where
  "startWorkflow tid ty d n s =
     (case createWorkflow tid ty d n s of
        (w, s1) \<Rightarrow>
          (case defTasks d of
             [] \<Rightarrow> completeFinal w s1
           | node # rest \<Rightarrow> Inr (scheduleTask w 0 node s1)))"

definition completeWorkflow :: "WorkflowInstance \<Rightarrow> Engine \<Rightarrow> engineError + Engine" where
  "completeWorkflow w s =
     (if wType w = KindCompensateThenRetryWorkflow
      then andThen (updateWorkflow (workflowId w) WorkflowCompleted s)
             (\<lambda>s1. case transactionInstances s1 (wTransactionId w) of
                      None \<Rightarrow> Inl TransactionNotFound
                    | Some x \<Rightarrow>
                        startWorkflow (wTransactionId w) KindWorkflow (workflowDefinition x) 0 s1)
      else completeFinal w s)"

text \<open>
  Modelled from the spec: the synthesized compensation (section 4.3): one Compensate
  task per Completed task instance of the failed workflow, Decision and Parallel
  containers skipped, in reverse order; each receives the output of the task it undoes
  as its input. A failed compensate task fails its workflow and the transaction.
\<close>

definition toCompensate :: "nat \<Rightarrow> TaskInstance \<Rightarrow> bool" where
  "toCompensate wid t =
     (tWorkflowId t = wid \<and> tStatus t = TaskCompleted
        \<and> tType t \<noteq> TypeDecision \<and> tType t \<noteq> TypeParallel)"

definition compensateNode :: "TaskInstance \<Rightarrow> TaskNode" where
  "compensateNode t =
     \<lparr> nodeName = tName t, nodeRef = tRef t, nodeType = TypeCompensate,
       nodeInput = tOutput t, retryLimit = 0, retryDelay = 0 \<rparr>"

definition compensateTasks :: "nat \<Rightarrow> TaskInstance list \<Rightarrow> TaskNode list" where
  "compensateTasks wid ts = map compensateNode (rev (filter (toCompensate wid) ts))"

definition startCompensation ::
  "WorkflowTypes \<Rightarrow> WorkflowInstance \<Rightarrow> Engine \<Rightarrow> engineError + Engine" where
  "startCompensation ty w s =
     (let d = (wDefinition w)\<lparr> defTasks := compensateTasks (workflowId w) (taskInstances s),
                                 defFailureStrategy := StrategyFailed \<rparr>
      in case createWorkflow (wTransactionId w) ty d 0 s of
           (cw, s1) \<Rightarrow>
             (case defTasks d of
                [] \<Rightarrow> completeWorkflow cw s1
              | node # rest \<Rightarrow> Inr (scheduleTask cw 0 node s1)))"

text \<open>
  Modelled from the spec: the failure strategies of section 4.3, applied to a workflow
  that has just been marked Failed. A recovery workflow whose definition is not
  registered ends the transaction as Failed.
\<close>

definition applyStrategy :: "WorkflowInstance \<Rightarrow> Engine \<Rightarrow> engineError + Engine" where
  "applyStrategy w s =
     (case defFailureStrategy (wDefinition w) of
        StrategyFailed \<Rightarrow> updateTransaction (wTransactionId w) TransactionFailed s
      | StrategyRetry \<Rightarrow>
          if wRetries w < defRetryLimit (wDefinition w)
          then startWorkflow (wTransactionId w) KindRetryWorkflow (wDefinition w)
                 (Suc (wRetries w)) s
          else updateTransaction (wTransactionId w) TransactionFailed s
      | StrategyCompensate \<Rightarrow> startCompensation KindCompensateWorkflow w s
      | StrategyCompensateThenRetry \<Rightarrow> startCompensation KindCompensateThenRetryWorkflow w s
      | StrategyRecoveryWorkflow \<Rightarrow>
          (case defRecoveryWorkflow (wDefinition w) of
             None \<Rightarrow> updateTransaction (wTransactionId w) TransactionFailed s
           | Some key \<Rightarrow>
               (case workflowDefinitions s key of
                  None \<Rightarrow> updateTransaction (wTransactionId w) TransactionFailed s
                | Some d \<Rightarrow> startWorkflow (wTransactionId w) KindRecoveryWorkflow d 0 s)))"

text \<open>
  Modelled from the spec: \<open>taskInstance.reload\<close> (section 4.5) and the task-level
  retry (section 4.3): the instance is replaced in its slot by a fresh one with the
  same reference name, a new taskId and one more retry, which is announced as
  Scheduled. It runs after \<open>retryDelay\<close>: with no delay it is dispatched at once;
  otherwise a timer for it is sent, due \<open>retryDelay\<close> after the present time
  (sections 4.6 and 6).
\<close>

definition replaceTask :: "nat \<Rightarrow> TaskInstance \<Rightarrow> TaskInstance list \<Rightarrow> TaskInstance list" where
  "replaceTask k t' ts = map (\<lambda>u. if taskId u = k then t' else u) ts"

definition reloaded :: "nat \<Rightarrow> TaskInstance \<Rightarrow> TaskInstance" where
  "reloaded k t =
     t\<lparr> taskId := k, tStatus := TaskScheduled, tOutput := JUndefined,
        tRetries := Suc (tRetries t), tIsRetried := True \<rparr>"

definition retryEffects :: "nat \<Rightarrow> TaskInstance \<Rightarrow> Effect list" where
  "retryEffects now t =
     (if tRetryDelay t = 0
      then [Dispatch t (tTransactionId t) (isSystemType (tType t)), SendEvent (TaskEvent t)]
      else [SendTimer (now + tRetryDelay t) t, SendEvent (TaskEvent t)])"

definition announceRetry :: "TaskInstance \<Rightarrow> Engine \<Rightarrow> Engine" where
  "announceRetry t s = s\<lparr> trace := trace s @ retryEffects (clock s) t \<rparr>"

definition reloadTask :: "TaskInstance \<Rightarrow> Engine \<Rightarrow> Engine" where
  "reloadTask t s =
     (let t' = reloaded (nextId s) t
      in announceRetry t'
           (emit (Store TaskReload)
              (s\<lparr> taskInstances := replaceTask (taskId t) t' (taskInstances s),
                  nextId := Suc (nextId s) \<rparr>)))"

definition handleFailed :: "TaskInstance \<Rightarrow> Engine \<Rightarrow> engineError + Engine" where
  "handleFailed t s =
     (if tRetries t < tRetryLimit t then Inr (reloadTask t s)
      else
        (case workflowInstances s (tWorkflowId t) of
           None \<Rightarrow> Inl Unexpected
         | Some w \<Rightarrow> andThen (updateWorkflow (workflowId w) WorkflowFailed s) (applyStrategy w)))"

text \<open>
  Modelled from the spec: advancing a workflow after a Completed task (section 4.2,
  Sequence): the next sibling by index is scheduled, and when there is none the
  workflow is complete.
\<close>

definition handleCompleted :: "TaskInstance \<Rightarrow> Engine \<Rightarrow> engineError + Engine" where
  "handleCompleted t s =
     (case workflowInstances s (tWorkflowId t) of
        None \<Rightarrow> Inl Unexpected
      | Some w \<Rightarrow>
          (case drop (Suc (tIndex t)) (defTasks (wDefinition w)) of
             [] \<Rightarrow> completeWorkflow w s
           | node # rest \<Rightarrow> Inr (scheduleTask w (Suc (tIndex t)) node s)))"

text \<open>Modelled from the spec: the table of allowed task transitions (section 4.2).\<close>

fun taskTransitionAllowed :: "TaskStates \<Rightarrow> TaskStates \<Rightarrow> bool \<Rightarrow> bool" where
  "taskTransitionAllowed TaskScheduled TaskInprogress isSystem = True"
| "taskTransitionAllowed TaskScheduled TaskCompleted isSystem = isSystem"
| "taskTransitionAllowed TaskScheduled TaskFailed isSystem = True"
| "taskTransitionAllowed TaskScheduled TaskAckTimeOut isSystem = True"
| "taskTransitionAllowed TaskScheduled TaskTimeout isSystem = True"
| "taskTransitionAllowed TaskInprogress TaskCompleted isSystem = True"
| "taskTransitionAllowed TaskInprogress TaskFailed isSystem = True"
| "taskTransitionAllowed TaskInprogress TaskTimeout isSystem = True"
| "taskTransitionAllowed cur new isSystem = False"

text \<open>Modelled from the spec: the update message of section 6.\<close>

record TaskStatusUpdate =
  uTransactionId :: string
  uTaskId :: nat
  uStatus :: TaskStates
  uOutput :: jsval
  uIsSystem :: bool

text \<open>
  Modelled from the spec: \<open>apply\<close> for one update (section 4.2). The task is loaded;
  a resubmission of the same status and output is dropped silently; an illegal
  transition is answered by an error event; otherwise the instance is persisted, its
  TASK event is emitted (preceded by the implicit Inprogress event when a worker's
  terminal status arrives for a Scheduled task) and a terminal status advances or
  fails the workflow. An error in a later step drops the update and leaves an error
  event (section 7).
\<close>

definition implicitInprogress :: "TaskStates \<Rightarrow> TaskStates \<Rightarrow> bool" where
  "implicitInprogress cur new =
     (cur = TaskScheduled \<and> new \<in> set [TaskCompleted, TaskFailed, TaskTimeout])"

definition persistTask :: "TaskInstance \<Rightarrow> TaskStatusUpdate \<Rightarrow> Engine \<Rightarrow> Engine" where
  "persistTask t u s =
     (let t' = t\<lparr> tStatus := uStatus u, tOutput := uOutput u \<rparr>;
          s1 = emit (Store TaskUpdate)
                 (s\<lparr> taskInstances := replaceTask (taskId t) t' (taskInstances s) \<rparr>);
          s2 = (if implicitInprogress (tStatus t) (uStatus u)
                then emit (SendEvent (TaskEvent (t\<lparr> tStatus := TaskInprogress \<rparr>))) s1
                else s1)
      in emit (SendEvent (TaskEvent t')) s2)"

definition processUpdateTask :: "TaskStatusUpdate \<Rightarrow> Engine \<Rightarrow> Engine" where
  "processUpdateTask u s =
     (case find (\<lambda>t. taskId t = uTaskId u) (taskInstances s) of
        None \<Rightarrow> emit (SendEvent (ErrorEvent (uTransactionId u) TaskNotFound)) s
      | Some t \<Rightarrow>
          if tTransactionId t \<noteq> uTransactionId u
          then emit (SendEvent (ErrorEvent (uTransactionId u) TaskNotFound)) s
          else if tStatus t = uStatus u \<and> tOutput t = uOutput u then s
          else if \<not> taskTransitionAllowed (tStatus t) (uStatus u) (uIsSystem u)
          then emit (SendEvent (ErrorEvent (uTransactionId u) InvalidTransition)) s
          else
            (let t' = t\<lparr> tStatus := uStatus u, tOutput := uOutput u \<rparr>;
                 s1 = persistTask t u s;
                 r = (if uStatus u = TaskCompleted then handleCompleted t' s1
                      else if uStatus u \<in> set [TaskFailed, TaskAckTimeOut, TaskTimeout]
                      then handleFailed t' s1
                      else Inr s1)
             in case r of
                  Inl e \<Rightarrow> emit (SendEvent (ErrorEvent (uTransactionId u) e)) s
                | Inr s' \<Rightarrow> s'))"

definition processUpdateTasks :: "TaskStatusUpdate list \<Rightarrow> Engine \<Rightarrow> Engine" where
  "processUpdateTasks us s = foldl (\<lambda>s' u. processUpdateTask u s') s us"

text \<open>
  Modelled from the spec: the redelivery of a timer that was sent for a delayed retry
  (sections 4.6 and 6). The time is then at least \<open>scheduledAt\<close>; the task of the timer
  is dispatched if its instance is still stored as Scheduled, and the timer is dropped
  otherwise.
\<close>

definition processTimer :: "nat \<times> TaskInstance \<Rightarrow> Engine \<Rightarrow> Engine" where
  "processTimer tm s =
     (case tm of
        (scheduledAt, t) \<Rightarrow>
          (let s1 = s\<lparr> clock := max (clock s) scheduledAt \<rparr> in
           case find (\<lambda>u. taskId u = taskId t) (taskInstances s1) of
             None \<Rightarrow> s1
           | Some u \<Rightarrow>
               if tStatus u = TaskScheduled
               then emit (Dispatch u (tTransactionId u) (isSystemType (tType u))) s1
               else s1))"

text \<open>
  Modelled from the spec: the start of a transaction (section 3, lifecycle): the
  transaction is created Running and the first workflow instance is started from the
  definition. An id that is taken is refused with TransactionAlreadyExists.
\<close>

definition startTransaction ::
  "string \<Rightarrow> EngineDefinition \<Rightarrow> Engine \<Rightarrow> engineError + Engine" where
  "startTransaction tid d s =
     (case transactionInstances s tid of
        Some x \<Rightarrow> Inl TransactionAlreadyExists
      | None \<Rightarrow>
          (let x = \<lparr> transactionId = tid, status = TransactionRunning, output' = JUndefined,
                      endTime = None, workflowDefinition = d \<rparr>
           in startWorkflow tid KindWorkflow d 0
                (emit (SendEvent (TransactionEvent x))
                   (emit (Store TransactionCreate)
                      (s\<lparr> transactionInstances := (transactionInstances s)(tid \<mapsto> x) \<rparr>)))))"

text \<open>
  The helper \<open>updateTask\<close> of the integration test: the worker acknowledges the task
  with Inprogress and then reports the given status. \<open>currentTask\<close> is the task of the
  latest dispatch, which the test reads from the mocked \<open>dispatch\<close>.
\<close>

definition workerUpdate :: "TaskInstance \<Rightarrow> TaskStates \<Rightarrow> TaskStatusUpdate" where
  "workerUpdate t st =
     \<lparr> uTransactionId = tTransactionId t, uTaskId = taskId t, uStatus = st,
       uOutput = JUndefined, uIsSystem = False \<rparr>"

definition updateTask :: "TaskInstance \<Rightarrow> TaskStates \<Rightarrow> Engine \<Rightarrow> Engine" where
  "updateTask t st s =
     processUpdateTasks [workerUpdate t st]
       (processUpdateTasks [workerUpdate t TaskInprogress] s)"

fun dispatched :: "Effect list \<Rightarrow> TaskInstance list" where
  "dispatched [] = []"
| "dispatched (Dispatch t tid isSystem # es) = t # dispatched es"
| "dispatched (e # es) = dispatched es"

fun sentEvents :: "Effect list \<Rightarrow> Event list" where
  "sentEvents [] = []"
| "sentEvents (SendEvent e # es) = e # sentEvents es"
| "sentEvents (e # es) = sentEvents es"

fun sentTimers :: "Effect list \<Rightarrow> (nat \<times> TaskInstance) list" where
  "sentTimers [] = []"
| "sentTimers (SendTimer scheduledAt t # es) = (scheduledAt, t) # sentTimers es"
| "sentTimers (e # es) = sentTimers es"

fun storeCalls :: "Effect list \<Rightarrow> StoreCall list" where
  "storeCalls [] = []"
| "storeCalls (Store c # es) = c # storeCalls es"
| "storeCalls (e # es) = storeCalls es"

definition currentTask :: "Engine \<Rightarrow> TaskInstance option" where
  "currentTask s =
     (if dispatched (trace s) = [] then None else Some (last (dispatched (trace s))))"

definition worker :: "TaskStates \<Rightarrow> Engine \<Rightarrow> Engine" where
  "worker st s = (case currentTask s of None \<Rightarrow> s | Some t \<Rightarrow> updateTask t st s)"

text \<open>
  Identifiers are fresh: no two stored task instances share a taskId and every taskId
  in use lies below the next identifier. A task awaits its worker when it is the task
  of the latest dispatch, is stored and is Scheduled.
\<close>

definition freshIds :: "Engine \<Rightarrow> bool" where
  "freshIds s =
     (distinct (map taskId (taskInstances s))
        \<and> list_all (\<lambda>t. taskId t < nextId s) (taskInstances s))"

definition awaiting :: "Engine \<Rightarrow> TaskInstance \<Rightarrow> bool" where
  "awaiting s t =
     (currentTask s = Some t \<and> t \<in> set (taskInstances s)
        \<and> tStatus t = TaskScheduled \<and> freshIds s)"

text \<open>
  The state in which both updates of a worker for an awaited task are persisted and
  announced, before the workflow is advanced or failed.
\<close>

definition reported :: "Engine \<Rightarrow> TaskInstance \<Rightarrow> TaskStates \<Rightarrow> Engine" where
  "reported s t st =
     s\<lparr> taskInstances :=
          replaceTask (taskId t) (t\<lparr> tStatus := st, tOutput := JUndefined \<rparr>) (taskInstances s),
        trace := trace s @
          [Store TaskUpdate,
           SendEvent (TaskEvent (t\<lparr> tStatus := TaskInprogress, tOutput := JUndefined \<rparr>)),
           Store TaskUpdate,
           SendEvent (TaskEvent (t\<lparr> tStatus := st, tOutput := JUndefined \<rparr>))] \<rparr>"

definition transactionStatus :: "string \<Rightarrow> Engine \<Rightarrow> TransactionStates option" where
  "transactionStatus tid s = map_option status (transactionInstances s tid)"

text \<open>
  A workflow is under way at a task when the task awaits its worker, belongs to the
  stored Running workflow at a position of its definition, and the transaction of the
  workflow is Running.
\<close>

definition underWay :: "Engine \<Rightarrow> WorkflowInstance \<Rightarrow> TaskInstance \<Rightarrow> bool" where
  "underWay s w t =
     (awaiting s t
        \<and> workflowInstances s (workflowId w) = Some w \<and> wStatus w = WorkflowRunning
        \<and> workflowId w < nextId s
        \<and> tWorkflowId t = workflowId w \<and> tTransactionId t = wTransactionId w
        \<and> tIndex t < length (defTasks (wDefinition w))
        \<and> transactionStatus (wTransactionId w) s = Some TransactionRunning)"

text \<open>What a step added to the trace (the test clears its mocks between steps).\<close>

definition since :: "Engine \<Rightarrow> Engine \<Rightarrow> Effect list" where
  "since s s' = drop (length (trace s)) (trace s')"

text \<open>
  \<open>redelivered s s'\<close> is the state \<open>s'\<close> once the timers that were sent between \<open>s\<close>
  and \<open>s'\<close> have come due and have been redelivered, in the order they were sent.
  A failure as the surroundings of the engine see it: the worker fails the given task
  with \<open>updateTask\<close>, and the timers that this step has sent are redelivered. The
  worker then goes on with the task that the step has dispatched, as the test does when
  it reads the first call of the mocked \<open>dispatch\<close>. \<open>failTimes n\<close> fails a task and
  its retries \<open>n\<close> times in this way.
\<close>

definition redelivered :: "Engine \<Rightarrow> Engine \<Rightarrow> Engine" where
  "redelivered s s' = foldl (\<lambda>r tm. processTimer tm r) s' (sentTimers (since s s'))"

definition failOnce :: "TaskInstance \<Rightarrow> Engine \<Rightarrow> Engine" where
  "failOnce t s = redelivered s (updateTask t TaskFailed s)"

definition retried :: "Engine \<Rightarrow> Engine \<Rightarrow> TaskInstance \<Rightarrow> TaskInstance" where
  "retried s s' t = (case dispatched (since s s') of [] \<Rightarrow> t | t' # ts \<Rightarrow> t')"

fun failTimes :: "nat \<Rightarrow> TaskInstance \<Rightarrow> Engine \<Rightarrow> TaskInstance \<times> Engine" where
  "failTimes 0 t s = (t, s)"
| "failTimes (Suc n) t s = failTimes n (retried s (failOnce t s) t) (failOnce t s)"

text \<open>
  A task is in progress in a workflow when it is stored as Scheduled among task
  instances with fresh identifiers, its workflow instance is stored as Running and the
  transaction of the workflow is Running. Other transactions may have dispatched tasks
  since.
\<close>

definition inProgress :: "Engine \<Rightarrow> WorkflowInstance \<Rightarrow> TaskInstance \<Rightarrow> bool" where
  "inProgress s w t =
     (t \<in> set (taskInstances s) \<and> tStatus t = TaskScheduled \<and> freshIds s
        \<and> workflowInstances s (workflowId w) = Some w \<and> wStatus w = WorkflowRunning
        \<and> tWorkflowId t = workflowId w
        \<and> transactionStatus (wTransactionId w) s = Some TransactionRunning)"

text \<open>The definition and the empty engine of the integration test.\<close>

definition testNode :: "string \<Rightarrow> TaskNode" where
  "testNode r =
     \<lparr> nodeName = r, nodeRef = r, nodeType = TypeTask, nodeInput = JUndefined,
       retryLimit = 3, retryDelay = 0 \<rparr>"

definition testDefinition :: "FailureStrategies \<Rightarrow> EngineDefinition" where
  "testDefinition strategy =
     \<lparr> defName = ''name'', defRev = ''rev'',
       defTasks = [testNode ''t1'', testNode ''t2'', testNode ''t3''],
       defFailureStrategy = strategy, defRetryLimit = 3, defRecoveryWorkflow = None \<rparr>"

definition emptyEngine :: Engine where
  "emptyEngine =
     \<lparr> transactionInstances = Map.empty, workflowInstances = Map.empty, taskInstances = [],
       workflowDefinitions = Map.empty, trace = [], nextId = 0, clock = 0 \<rparr>"

text \<open>
  The run of the integration test up to the dispatch of \<open>t3\<close>: the transaction is
  started and the worker completes \<open>t1\<close> and \<open>t2\<close>; the workflow instance and the
  instance of \<open>t3\<close> that this run creates.
\<close>

definition testStart :: "FailureStrategies \<Rightarrow> Engine" where
  "testStart f =
     (case startTransaction ''TX'' (testDefinition f) emptyEngine of
        Inl e \<Rightarrow> emptyEngine
      | Inr s \<Rightarrow> s)"

definition testAtT3 :: "FailureStrategies \<Rightarrow> Engine" where
  "testAtT3 f = worker TaskCompleted (worker TaskCompleted (testStart f))"

definition testWorkflow :: "FailureStrategies \<Rightarrow> WorkflowInstance" where
  "testWorkflow f =
     \<lparr> workflowId = 0, wTransactionId = ''TX'', wType = KindWorkflow,
       wStatus = WorkflowRunning, wDefinition = testDefinition f, wRetries = 0 \<rparr>"

definition testT3 :: "FailureStrategies \<Rightarrow> TaskInstance" where
  "testT3 f = newTask (testWorkflow f) 2 (testNode ''t3'') 3"

text \<open>
  The same run after \<open>t3\<close> has failed three times and has been reloaded three times:
  the instance of \<open>t3\<close> that awaits the worker has used up its retries.
\<close>

definition testExhausted :: "FailureStrategies \<Rightarrow> Engine" where
  "testExhausted f = worker TaskFailed (worker TaskFailed (worker TaskFailed (testAtT3 f)))"

definition testT3Last :: "FailureStrategies \<Rightarrow> TaskInstance" where
  "testT3Last f = reloaded 6 (reloaded 5 (reloaded 4 (testT3 f)))"

text \<open>
  The same definition with a retry delay of one hour on every task, and its run up to
  the dispatch of \<open>t3\<close>.
\<close>

definition delayedDefinition :: "FailureStrategies \<Rightarrow> EngineDefinition" where
  "delayedDefinition f =
     (testDefinition f)
       \<lparr> defTasks := map (\<lambda>n. n\<lparr> retryDelay := 3600 \<rparr>) (defTasks (testDefinition f)) \<rparr>"

definition delayedAtT3 :: "FailureStrategies \<Rightarrow> Engine" where
  "delayedAtT3 f =
     worker TaskCompleted (worker TaskCompleted
       (case startTransaction ''TX'' (delayedDefinition f) emptyEngine of
          Inl e \<Rightarrow> emptyEngine
        | Inr s \<Rightarrow> s))"

definition delayedWorkflow :: "FailureStrategies \<Rightarrow> WorkflowInstance" where
  "delayedWorkflow f = (testWorkflow f)\<lparr> wDefinition := delayedDefinition f \<rparr>"

definition delayedT3 :: "FailureStrategies \<Rightarrow> TaskInstance" where
  "delayedT3 f = (testT3 f)\<lparr> tRetryDelay := 3600 \<rparr>"

section \<open>Properties of the Redis transaction instance store\<close>

lemma update_endTime:
  "update TransactionNextStates now prefix transactionUpdate client = (Inr updated, client') \<Longrightarrow>
     (endTime updated \<noteq> None) =
       (status transactionUpdate = TransactionCompleted \<or> status transactionUpdate = TransactionFailed)"
  by (auto simp: update_def Let_def split: option.splits if_splits)

text \<open>
  C4. The claim asks for \<open>endTime\<close> to be set exactly when the new status is
  Completed, Failed, Cancelled or Compensated. \<open>update\<close> sets it for Completed and
  Failed only (lemma \<open>update_endTime\<close>): a Running transaction that is updated to
  Compensated, as the compensation test does, is stored with \<open>endTime\<close> unset.
\<close>

theorem update_Compensated_leaves_endTime_unset:
  "fst (update exampleNextStates 1572566400000 ''melonade''
          \<lparr> transactionId = ''tx1'', status = TransactionCompensated, output' = JNull \<rparr>
          (exampleClient TransactionRunning))
   = Inr \<lparr> transactionId = ''tx1'', status = TransactionCompensated, output' = JNull,
            endTime = None \<rparr>"
  by (simp add: update_def exampleNextStates_def exampleClient_def exampleTransaction_def Let_def)

text \<open>
  C5. For a stored transaction, an update to a status that the transition table does
  not allow from the stored status fails with the error "Cannot change status" and
  leaves the whole store as it was; an update to an allowed status succeeds and the
  stored transaction then has the new status.
\<close>

theorem update_enforces_transition_table:
  assumes "client (transactionKey prefix (transactionId transactionUpdate)) = Some transaction"
  shows "(status transactionUpdate \<notin> set (TransactionNextStates (status transaction)) \<longrightarrow>
            update TransactionNextStates now prefix transactionUpdate client =
              (Inl (CannotChangeStatus (transactionId transaction) (status transaction)
                      (status transactionUpdate)), client))
       \<and> (status transactionUpdate \<in> set (TransactionNextStates (status transaction)) \<longrightarrow>
            (\<exists>updated client'.
               update TransactionNextStates now prefix transactionUpdate client = (Inr updated, client')
             \<and> get prefix (transactionId transactionUpdate) client' = Some updated
             \<and> status updated = status transactionUpdate))"
  using assms by (simp add: update_def get_def Let_def)

theorem update_enforces_transition_table_witness:
  "update exampleNextStates 1572566400000 ''melonade''
      \<lparr> transactionId = ''tx1'', status = TransactionRunning, output' = JNull \<rparr>
      (exampleClient TransactionCompleted)
    = (Inl (CannotChangeStatus ''tx1'' TransactionCompleted TransactionRunning),
       exampleClient TransactionCompleted)
   \<and> (\<exists>updated client'.
        update exampleNextStates 1572566400000 ''melonade''
          \<lparr> transactionId = ''tx1'', status = TransactionCompleted, output' = JNull \<rparr>
          (exampleClient TransactionRunning) = (Inr updated, client')
        \<and> get ''melonade'' ''tx1'' client' = Some updated
        \<and> status updated = TransactionCompleted)"
  using update_enforces_transition_table
          [of "exampleClient TransactionCompleted" "''melonade''"
              "\<lparr> transactionId = ''tx1'', status = TransactionRunning, output' = JNull \<rparr>"
              "exampleTransaction TransactionCompleted" exampleNextStates 1572566400000]
        update_enforces_transition_table
          [of "exampleClient TransactionRunning" "''melonade''"
              "\<lparr> transactionId = ''tx1'', status = TransactionCompleted, output' = JNull \<rparr>"
              "exampleTransaction TransactionRunning" exampleNextStates 1572566400000]
  by (simp add: exampleClient_def exampleTransaction_def exampleNextStates_def)

text \<open>
  C9. \<open>create\<close> fails with the error "already exists" when the key of the
  transaction's id is taken, and the store, the old value included, is unchanged; when
  the key is free it stores the given transaction and returns it.
\<close>

theorem create_rejects_existing_transactionId:
  "(\<forall>old. client (transactionKey prefix (transactionId transaction)) = Some old \<longrightarrow>
        create prefix transaction client
          = (Inl (AlreadyExists (transactionId transaction)), client))
   \<and> (client (transactionKey prefix (transactionId transaction)) = None \<longrightarrow>
        (\<exists>client'. create prefix transaction client = (Inr transaction, client')
           \<and> get prefix (transactionId transaction) client' = Some transaction))"
  by (simp add: create_def setnx_def get_def)

theorem create_rejects_existing_transactionId_witness:
  "create ''melonade'' (exampleTransaction TransactionRunning) (exampleClient TransactionFailed)
     = (Inl (AlreadyExists ''tx1''), exampleClient TransactionFailed)
   \<and> (\<exists>client'. create ''melonade'' (exampleTransaction TransactionRunning) Map.empty
          = (Inr (exampleTransaction TransactionRunning), client')
        \<and> get ''melonade'' ''tx1'' client' = Some (exampleTransaction TransactionRunning))"
  using create_rejects_existing_transactionId
          [of "exampleClient TransactionFailed" "''melonade''" "exampleTransaction TransactionRunning"]
        create_rejects_existing_transactionId
          [of Map.empty "''melonade''" "exampleTransaction TransactionRunning"]
  by (simp add: exampleClient_def exampleTransaction_def)

text \<open>
  C10. For an id with no stored transaction, \<open>get\<close> answers null (\<open>None\<close>) and
  \<open>update\<close> fails with the error "not found", writing nothing.
\<close>

theorem get_absent_is_null_update_absent_fails:
  assumes "client (transactionKey prefix (transactionId transactionUpdate)) = None"
  shows "get prefix (transactionId transactionUpdate) client = None
       \<and> update TransactionNextStates now prefix transactionUpdate client
           = (Inl (NotFound (transactionId transactionUpdate)), client)"
  using assms by (simp add: get_def update_def)

theorem get_absent_is_null_update_absent_fails_witness:
  "get ''melonade'' ''tx2'' (exampleClient TransactionRunning) = None
   \<and> update exampleNextStates 1572566400000 ''melonade''
        \<lparr> transactionId = ''tx2'', status = TransactionCompleted, output' = JNull \<rparr>
        (exampleClient TransactionRunning)
       = (Inl (NotFound ''tx2''), exampleClient TransactionRunning)"
  using get_absent_is_null_update_absent_fails
          [of "exampleClient TransactionRunning" "''melonade''"
              "\<lparr> transactionId = ''tx2'', status = TransactionCompleted, output' = JNull \<rparr>"
              exampleNextStates 1572566400000]
  by (simp add: exampleClient_def transactionKey_def)

section \<open>Properties of the workflow definition validator\<close>

lemma errors_push: "set (errors result) \<subseteq> set (errors (push result e))"
  by (auto simp: push_def)

lemma errors_validateBase:
  "set (errors result) \<subseteq> set (errors (validateBase I nm ref ty cr result))"
  by (auto simp: validateBase_def push_def Let_def)

lemma errors_grow:
  "set (errors result) \<subseteq> set (errors (validateTask I t cr result))"
  "set (errors result) \<subseteq> set (errors (validateTasksFrom I i ts r result))"
  "set (errors result) \<subseteq> set (errors (validateDecisions I ds cr result))"
  "set (errors result) \<subseteq> set (errors (validateParallel I j ls cr result))"
proof (induction I t cr result and I i ts r result and I ds cr result and I j ls cr result
       rule: validateTask_validateTasksFrom_validateDecisions_validateParallel.induct)
  case (1 I nm ref currentRoot result)
  then show ?case by (simp add: errors_validateBase)
next
  case (2 I nm ref decisions defaultDecision currentRoot result)
  define r where "r = validateBase I nm ref TypeDecision currentRoot result"
  define r' where "r' = (if defaultDecision = []
      then push r (currentRoot @ ''.defaultDecision cannot be empty'') else r)"
  define d where "d = validateTasksFrom I 0 defaultDecision (currentRoot @ ''.defaultDecision'') r'"
  have a: "set (errors result) \<subseteq> set (errors r)"
    by (simp add: r_def errors_validateBase)
  have b: "set (errors r) \<subseteq> set (errors r')"
    by (auto simp: r'_def push_def)
  have c: "set (errors r') \<subseteq> set (errors d)"
    unfolding d_def using 2(1) [OF r_def r'_def] .
  have e: "set (errors d) \<subseteq> set (errors (validateDecisions I decisions currentRoot d))"
    using 2(2) [OF r_def r'_def d_def] .
  have "validateTask I (IDecisionTask nm ref decisions defaultDecision) currentRoot result
          = validateDecisions I decisions currentRoot d"
    by (simp add: Let_def r_def r'_def d_def)
  with a b c e show ?case by auto
next
  case (3 I nm ref parallelTasks currentRoot result)
  then show ?case
    using errors_validateBase [of result I nm ref TypeParallel currentRoot] by auto
next
  case (4 I nm ref w currentRoot result)
  then show ?case
    using errors_validateBase [of result I nm ref TypeSubWorkflow currentRoot]
    by (auto simp: Let_def push_def)
next
  case (5 I index root result)
  then show ?case by simp
next
  case (6 I index task rest root result)
  then show ?case by auto
next
  case (7 I currentRoot result)
  then show ?case by simp
next
  case (8 I decision decisionTasks rest currentRoot result)
  then show ?case by auto
next
  case (9 I index currentRoot result)
  then show ?case by simp
next
  case (10 I index lane rest currentRoot result)
  then show ?case by auto
qed


lemma workflowValidation_kept:
  "set (workflowValidation I wd) \<subseteq> set (validationErrors I wd)"
  using errors_grow(2) [of "\<lparr> errors = workflowValidation I wd, taskReferenceNames = Map.empty \<rparr>"]
  by (simp add: validationErrors_def validateTasks_def)

lemmas example_simps =
  exampleExternals_def exampleDefinition_def exampleIsValidRev_def nameChars_def
  validationErrors_def validateTasks_def workflowValidation_def WorkflowDefinition_def
  isRecoveryWorkflowConfigValid_def isFailureStrategiesConfigValid_def isEmptyTasks_def
  validateBase_def truthyProperty_def objectPrototypeKeys_def push_def showNat.simps
  digitChar_def Let_def

text \<open>
  C6, as stated, fails: a definition with strategy Retry whose \<open>retry.limit\<close> and
  \<open>retry.delaySecond\<close> are negative numbers passes the validation.
\<close>

theorem negative_retry_is_accepted:
  "WorkflowDefinition exampleExternals
     (exampleDefinition\<lparr> failureStrategy := Some StrategyRetry,
                          retry := Some (RetryConfig (JNumber (- 1)) (JNumber (- 30))) \<rparr>)
   = Inr (exampleDefinition\<lparr> failureStrategy := Some StrategyRetry,
                              retry := Some (RetryConfig (JNumber (- 1)) (JNumber (- 30))) \<rparr>)"
  by (simp add: example_simps)

text \<open>
  C6, amended. With strategy Retry, \<open>workflowValidation\<close> reports
  "workflowDefinition.retry is invalid" exactly when \<open>retry.limit\<close> or
  \<open>retry.delaySecond\<close> is not a number; such a definition is rejected with that error
  among the reported ones, and a definition that passes has numbers in both places.
  The sign of the numbers is not looked at.
\<close>

theorem retry_must_be_numbers:
  assumes "failureStrategy wd = Some StrategyRetry"
  shows "((''workflowDefinition.retry is invalid'' \<in> set (workflowValidation I wd))
            = (\<not> isNumber (path_retry_limit wd) \<or> \<not> isNumber (path_retry_delaySecond wd)))
       \<and> (\<not> isNumber (path_retry_limit wd) \<or> \<not> isNumber (path_retry_delaySecond wd) \<longrightarrow>
            (\<exists>es. WorkflowDefinition I wd = Inl es
                 \<and> ''workflowDefinition.retry is invalid'' \<in> set es))
       \<and> (WorkflowDefinition I wd = Inr wd \<longrightarrow>
            isNumber (path_retry_limit wd) \<and> isNumber (path_retry_delaySecond wd))"
proof -
  let ?bad = "\<not> isNumber (path_retry_limit wd) \<or> \<not> isNumber (path_retry_delaySecond wd)"
  have reported: "(''workflowDefinition.retry is invalid'' \<in> set (workflowValidation I wd)) = ?bad"
    using assms by (simp add: workflowValidation_def isFailureStrategiesConfigValid_def)
  have rejected: "\<exists>es. WorkflowDefinition I wd = Inl es
                      \<and> ''workflowDefinition.retry is invalid'' \<in> set es" if ?bad
  proof -
    from that reported workflowValidation_kept [of I wd]
    have "''workflowDefinition.retry is invalid'' \<in> set (validationErrors I wd)" by blast
    then show ?thesis by (auto simp: WorkflowDefinition_def)
  qed
  have accepted: "\<not> ?bad" if "WorkflowDefinition I wd = Inr wd"
    using rejected that by auto
  from reported rejected accepted show ?thesis by blast
qed

theorem retry_must_be_numbers_witness:
  "(\<exists>es. WorkflowDefinition exampleExternals
            (exampleDefinition\<lparr> failureStrategy := Some StrategyRetry,
                                 retry := Some (RetryConfig (JNumber 3) JUndefined) \<rparr>) = Inl es
        \<and> ''workflowDefinition.retry is invalid'' \<in> set es)
   \<and> isNumber (path_retry_limit
        (exampleDefinition\<lparr> failureStrategy := Some StrategyRetry,
                             retry := Some (RetryConfig (JNumber 3) (JNumber 0)) \<rparr>))"
proof -
  have a: "failureStrategy (exampleDefinition\<lparr> failureStrategy := Some StrategyRetry,
              retry := Some (RetryConfig (JNumber 3) JUndefined) \<rparr>) = Some StrategyRetry"
    by simp
  have b: "failureStrategy (exampleDefinition\<lparr> failureStrategy := Some StrategyRetry,
              retry := Some (RetryConfig (JNumber 3) (JNumber 0)) \<rparr>) = Some StrategyRetry"
    by simp
  have ok: "WorkflowDefinition exampleExternals
              (exampleDefinition\<lparr> failureStrategy := Some StrategyRetry,
                                   retry := Some (RetryConfig (JNumber 3) (JNumber 0)) \<rparr>)
            = Inr (exampleDefinition\<lparr> failureStrategy := Some StrategyRetry,
                                   retry := Some (RetryConfig (JNumber 3) (JNumber 0)) \<rparr>)"
    by (simp add: example_simps)
  from retry_must_be_numbers [OF a, of exampleExternals]
       retry_must_be_numbers [OF b, of exampleExternals] ok
  show ?thesis by simp
qed

text \<open>
  C7, as stated, fails: the recovery workflow's name is not passed to
  \<open>isValidName\<close>. With a validator of names that refuses the empty string, a
  definition whose \<open>recoveryWorkflow.name\<close> is the empty string still passes.
\<close>

theorem unchecked_recovery_name_is_accepted:
  "\<not> isValidName exampleExternals (JString '''')
   \<and> WorkflowDefinition exampleExternals
        (exampleDefinition\<lparr> failureStrategy := Some StrategyRecoveryWorkflow,
             recoveryWorkflow := Some (WorkflowRef (JString '''') (JNumber 1)) \<rparr>)
     = Inr (exampleDefinition\<lparr> failureStrategy := Some StrategyRecoveryWorkflow,
             recoveryWorkflow := Some (WorkflowRef (JString '''') (JNumber 1)) \<rparr>)"
  by (simp add: example_simps)

text \<open>
  C7, amended. With strategy RecoveryWorkflow, \<open>workflowValidation\<close> reports
  "workflowDefinition.recoveryWorkflow is invalid" exactly when
  \<open>recoveryWorkflow.name\<close> is not a string or \<open>recoveryWorkflow.rev\<close> is not a
  number; such a definition is rejected with that error among the reported ones, and a
  definition that passes has a string and a number there.
\<close>

theorem recoveryWorkflow_must_be_string_and_number:
  assumes "failureStrategy wd = Some StrategyRecoveryWorkflow"
  shows "((''workflowDefinition.recoveryWorkflow is invalid'' \<in> set (workflowValidation I wd))
            = (\<not> isString (path_recoveryWorkflow_name wd)
                 \<or> \<not> isNumber (path_recoveryWorkflow_rev wd)))
       \<and> (\<not> isString (path_recoveryWorkflow_name wd)
              \<or> \<not> isNumber (path_recoveryWorkflow_rev wd) \<longrightarrow>
            (\<exists>es. WorkflowDefinition I wd = Inl es
                 \<and> ''workflowDefinition.recoveryWorkflow is invalid'' \<in> set es))
       \<and> (WorkflowDefinition I wd = Inr wd \<longrightarrow>
            isString (path_recoveryWorkflow_name wd) \<and> isNumber (path_recoveryWorkflow_rev wd))"
proof -
  let ?bad = "\<not> isString (path_recoveryWorkflow_name wd)
                \<or> \<not> isNumber (path_recoveryWorkflow_rev wd)"
  have reported:
    "(''workflowDefinition.recoveryWorkflow is invalid'' \<in> set (workflowValidation I wd)) = ?bad"
    using assms by (simp add: workflowValidation_def isRecoveryWorkflowConfigValid_def)
  have rejected: "\<exists>es. WorkflowDefinition I wd = Inl es
                      \<and> ''workflowDefinition.recoveryWorkflow is invalid'' \<in> set es" if ?bad
  proof -
    from that reported workflowValidation_kept [of I wd]
    have "''workflowDefinition.recoveryWorkflow is invalid'' \<in> set (validationErrors I wd)"
      by blast
    then show ?thesis by (auto simp: WorkflowDefinition_def)
  qed
  have accepted: "\<not> ?bad" if "WorkflowDefinition I wd = Inr wd"
    using rejected that by auto
  from reported rejected accepted show ?thesis by blast
qed

theorem recoveryWorkflow_must_be_string_and_number_witness:
  "(\<exists>es. WorkflowDefinition exampleExternals
            (exampleDefinition\<lparr> failureStrategy := Some StrategyRecoveryWorkflow,
                 recoveryWorkflow := Some (WorkflowRef (JString ''recover'') (JString ''1'')) \<rparr>)
            = Inl es
        \<and> ''workflowDefinition.recoveryWorkflow is invalid'' \<in> set es)
   \<and> isString (path_recoveryWorkflow_name
        (exampleDefinition\<lparr> failureStrategy := Some StrategyRecoveryWorkflow,
             recoveryWorkflow := Some (WorkflowRef (JString ''recover'') (JNumber 1)) \<rparr>))"
proof -
  have a: "failureStrategy (exampleDefinition\<lparr> failureStrategy := Some StrategyRecoveryWorkflow,
             recoveryWorkflow := Some (WorkflowRef (JString ''recover'') (JString ''1'')) \<rparr>)
           = Some StrategyRecoveryWorkflow"
    by simp
  have b: "failureStrategy (exampleDefinition\<lparr> failureStrategy := Some StrategyRecoveryWorkflow,
             recoveryWorkflow := Some (WorkflowRef (JString ''recover'') (JNumber 1)) \<rparr>)
           = Some StrategyRecoveryWorkflow"
    by simp
  have ok: "WorkflowDefinition exampleExternals
              (exampleDefinition\<lparr> failureStrategy := Some StrategyRecoveryWorkflow,
                 recoveryWorkflow := Some (WorkflowRef (JString ''recover'') (JNumber 1)) \<rparr>)
            = Inr (exampleDefinition\<lparr> failureStrategy := Some StrategyRecoveryWorkflow,
                 recoveryWorkflow := Some (WorkflowRef (JString ''recover'') (JNumber 1)) \<rparr>)"
    by (simp add: example_simps)
  from recoveryWorkflow_must_be_string_and_number [OF a, of exampleExternals]
       recoveryWorkflow_must_be_string_and_number [OF b, of exampleExternals] ok
  show ?thesis by simp
qed

text \<open>
  C8. The claim asks for no duplication error when all reference names differ. The
  seen names are kept as properties of an object literal, so a name that every object
  inherits counts as seen: a definition whose only task has the reference name
  \<open>constructor\<close> is reported to have a duplicated reference name.
\<close>

theorem inherited_property_reported_as_duplicate:
  "validationErrors exampleExternals
     (exampleDefinition\<lparr> tasks := [ITask ''t1'' ''constructor''] \<rparr>)
   = [''workflowDefinition.tasks[0].taskReferenceName is duplicated'']"
  by (simp add: example_simps)

section \<open>Properties of the state engine\<close>

text \<open>
  The theorems of this section are about the model of the engine written from the
  specification. The run of the integration test, replayed on the model, is used to
  instantiate them.
\<close>

lemmas engine_defs =
  startTransaction_def startWorkflow_def createWorkflow_def scheduleTask_def newTask_def
  announce_def emit_def isSystemType_def testDefinition_def testNode_def emptyEngine_def
  completeFinal_def completeWorkflow_def updateWorkflow_def updateTransaction_def andThen_def
  processUpdateTask_def processUpdateTasks_def persistTask_def implicitInprogress_def
  handleCompleted_def handleFailed_def reloadTask_def announceRetry_def retryEffects_def
  reloaded_def
  replaceTask_def ended_def terminalTransaction_def
  applyStrategy_def startCompensation_def compensateTasks_def compensateNode_def
  toCompensate_def worker_def updateTask_def workerUpdate_def currentTask_def Let_def
  testStart_def testAtT3_def testWorkflow_def testT3_def testExhausted_def testT3Last_def

lemma dispatched_append: "dispatched (xs @ ys) = dispatched xs @ dispatched ys"
  by (induction xs rule: dispatched.induct) auto



lemma since_append: "trace s' = trace s @ es \<Longrightarrow> since s s' = es"
  by (simp add: since_def)

lemma find_by_taskId:
  "distinct (map taskId ts) \<Longrightarrow> t \<in> set ts \<Longrightarrow> find (\<lambda>u. taskId u = taskId t) ts = Some t"
  by (induction ts) (auto simp: rev_image_eqI)

text \<open>The acknowledgement of a Scheduled task only persists the new status.\<close>

lemma ack_step:
  assumes "find (\<lambda>u. taskId u = taskId t) (taskInstances s) = Some t"
      and "tStatus t = TaskScheduled"
  shows "processUpdateTask (workerUpdate t TaskInprogress) s =
           s\<lparr> taskInstances :=
                 replaceTask (taskId t) (t\<lparr> tStatus := TaskInprogress, tOutput := JUndefined \<rparr>)
                   (taskInstances s),
               trace := trace s @
                 [Store TaskUpdate,
                  SendEvent (TaskEvent (t\<lparr> tStatus := TaskInprogress, tOutput := JUndefined \<rparr>))] \<rparr>"
  using assms
  by (simp add: processUpdateTask_def workerUpdate_def persistTask_def implicitInprogress_def
        emit_def Let_def)


lemma currentTask_snoc:
  "trace s' = trace s @ es \<Longrightarrow> dispatched es = ds @ [t] \<Longrightarrow> currentTask s' = Some t"
  by (simp add: currentTask_def dispatched_append)

lemma currentTask_same:
  "trace s' = trace s @ es \<Longrightarrow> dispatched es = [] \<Longrightarrow> currentTask s' = currentTask s"
  by (simp add: currentTask_def dispatched_append)

lemma replaceTask_Nil: "replaceTask k a [] = []"
  by (simp add: replaceTask_def)

lemma replaceTask_Cons:
  "replaceTask k a (u # ts) = (if taskId u = k then a else u) # replaceTask k a ts"
  by (simp add: replaceTask_def)

lemma taskId_replaceTask:
  "taskId a = k \<Longrightarrow> map taskId (replaceTask k a ts) = map taskId ts"
  by (induction ts) (auto simp: replaceTask_def)

lemma replaceTask_twice:
  "taskId a = k \<Longrightarrow> replaceTask k b (replaceTask k a ts) = replaceTask k b ts"
  by (induction ts) (auto simp: replaceTask_def)

lemma replaceTask_member:
  "t \<in> set ts \<Longrightarrow> a \<in> set (replaceTask (taskId t) a ts)"
  by (auto simp: replaceTask_def image_iff intro!: bexI [of _ t])

lemma find_replaceTask:
  "t \<in> set ts \<Longrightarrow> taskId a = taskId t \<Longrightarrow>
     find (\<lambda>u. taskId u = taskId t) (replaceTask (taskId t) a ts) = Some a"
  by (induction ts) (auto simp: replaceTask_def)

lemma find_reloaded:
  "t \<in> set ts \<Longrightarrow> list_all (\<lambda>u. taskId u < n) ts \<Longrightarrow> taskId a = n \<Longrightarrow>
     find (\<lambda>u. taskId u = n) (replaceTask (taskId t) a ts) = Some a"
  by (induction ts) (auto simp: replaceTask_def)

lemma ids_replaceTask:
  "taskId a = n \<Longrightarrow> taskId ` set (replaceTask k a ts) \<subseteq> insert n (taskId ` set ts)"
  by (auto simp: replaceTask_def)

lemma replaceTask_absent:
  "k \<notin> taskId ` set ts \<Longrightarrow> replaceTask k a ts = ts"
  by (induction ts) (auto simp: replaceTask_def)

lemma distinct_reloaded:
  assumes "distinct (map taskId ts)" "n \<notin> taskId ` set ts" "taskId a = n"
  shows "distinct (map taskId (replaceTask k a ts))"
  using assms
proof (induction ts)
  case Nil
  then show ?case by (simp add: replaceTask_Nil replaceTask_Cons)
next
  case (Cons u ts)
  have rest: "distinct (map taskId (replaceTask k a ts))"
    using Cons by simp
  have sub: "taskId ` set (replaceTask k a ts) \<subseteq> insert n (taskId ` set ts)"
    using Cons.prems(3) by (rule ids_replaceTask)
  show ?case
  proof (cases "taskId u = k")
    case True
    then have "k \<notin> taskId ` set ts" using Cons.prems(1) by simp
    then have same: "replaceTask k a ts = ts" by (rule replaceTask_absent)
    have "n \<notin> taskId ` set ts" using Cons.prems(2) by simp
    with True same Cons.prems show ?thesis
      by (simp add: replaceTask_Nil replaceTask_Cons)
  next
    case False
    have "taskId u \<noteq> n" using Cons.prems(2) by auto
    moreover have "taskId u \<notin> taskId ` set ts" using Cons.prems(1) by simp
    ultimately have "taskId u \<notin> taskId ` set (replaceTask k a ts)"
      using sub by blast
    with False rest show ?thesis
      by (simp add: replaceTask_Nil replaceTask_Cons)
  qed
qed

lemma bounded_reloaded:
  assumes "list_all (\<lambda>u. taskId u < n) ts" "taskId a = n"
  shows "list_all (\<lambda>u. taskId u < Suc n) (replaceTask k a ts)"
  using assms by (induction ts) (simp_all add: replaceTask_Nil replaceTask_Cons)

lemma freshIds_reloaded:
  assumes "distinct (map taskId ts)" "list_all (\<lambda>u. taskId u < n) ts" "taskId a = n"
  shows "distinct (map taskId (replaceTask k a ts))
       \<and> list_all (\<lambda>u. taskId u < Suc n) (replaceTask k a ts)"
proof -
  have "n \<notin> taskId ` set ts"
    using assms(2) by (induction ts) auto
  then show ?thesis
    using assms distinct_reloaded bounded_reloaded by blast
qed

lemma sentTimers_append: "sentTimers (xs @ ys) = sentTimers xs @ sentTimers ys"
  by (induction xs rule: sentTimers.induct) auto

lemma reloaded_fields:
  "taskId (reloaded k t) = k" "tStatus (reloaded k t) = TaskScheduled"
  "tRetryDelay (reloaded k t) = tRetryDelay t" "tRetryLimit (reloaded k t) = tRetryLimit t"
  "tRetries (reloaded k t) = Suc (tRetries t)" "tRef (reloaded k t) = tRef t"
  "tWorkflowId (reloaded k t) = tWorkflowId t" "tTransactionId (reloaded k t) = tTransactionId t"
  "tIndex (reloaded k t) = tIndex t" "tType (reloaded k t) = tType t"
  by (simp_all add: reloaded_def)

lemma reported_fields:
  "workflowInstances (reported s t st) = workflowInstances s"
  "transactionInstances (reported s t st) = transactionInstances s"
  "workflowDefinitions (reported s t st) = workflowDefinitions s"
  "nextId (reported s t st) = nextId s"
  "clock (reported s t st) = clock s"
  by (simp_all add: reported_def)

text \<open>
  The two updates of a worker for a stored Scheduled task: the acknowledgement and the
  terminal status are persisted and announced, and the workflow is advanced or failed.
\<close>

lemma updateTask_terminal:
  assumes mem: "t \<in> set (taskInstances s)" and sched: "tStatus t = TaskScheduled"
      and fresh: "freshIds s" and st: "st = TaskCompleted \<or> st = TaskFailed"
  shows "updateTask t st s =
           (case (if st = TaskCompleted
                  then handleCompleted (t\<lparr> tStatus := st, tOutput := JUndefined \<rparr>) (reported s t st)
                  else handleFailed (t\<lparr> tStatus := st, tOutput := JUndefined \<rparr>) (reported s t st)) of
              Inl e \<Rightarrow>
                emit (SendEvent (ErrorEvent (tTransactionId t) e))
                  (processUpdateTask (workerUpdate t TaskInprogress) s)
            | Inr s' \<Rightarrow> s')"
proof -
  let ?a = "t\<lparr> tStatus := TaskInprogress, tOutput := JUndefined \<rparr>"
  define s1 where "s1 = s\<lparr> taskInstances := replaceTask (taskId t) ?a (taskInstances s),
                      trace := trace s @ [Store TaskUpdate, SendEvent (TaskEvent ?a)] \<rparr>"
  have found: "find (\<lambda>u. taskId u = taskId t) (taskInstances s) = Some t"
    using fresh mem by (simp add: freshIds_def find_by_taskId)
  have ack: "processUpdateTask (workerUpdate t TaskInprogress) s = s1"
    unfolding s1_def using ack_step [OF found sched] .
  have found1: "find (\<lambda>u. taskId u = taskId t) (taskInstances s1) = Some ?a"
    using find_replaceTask [OF mem, of ?a] by (simp add: s1_def)
  have pers: "persistTask ?a (workerUpdate t st) s1 = reported s t st"
    using st by (auto simp: persistTask_def workerUpdate_def implicitInprogress_def emit_def
        Let_def s1_def reported_def replaceTask_twice)
  have step: "processUpdateTask (workerUpdate t st) s1 =
      (case (if st = TaskCompleted
             then handleCompleted (t\<lparr> tStatus := st, tOutput := JUndefined \<rparr>) (reported s t st)
             else handleFailed (t\<lparr> tStatus := st, tOutput := JUndefined \<rparr>) (reported s t st)) of
         Inl e \<Rightarrow> emit (SendEvent (ErrorEvent (tTransactionId t) e)) s1
       | Inr s' \<Rightarrow> s')"
    unfolding processUpdateTask_def Let_def pers [symmetric]
    using found1 st by (auto simp: workerUpdate_def cong: sum.case_cong)
  have "updateTask t st s = processUpdateTask (workerUpdate t st) s1"
    by (simp add: updateTask_def processUpdateTasks_def ack)
  then show ?thesis
    by (simp only: step ack)
qed

lemma worker_terminal:
  assumes aw: "awaiting s t" and st: "st = TaskCompleted \<or> st = TaskFailed"
  shows "worker st s =
           (case (if st = TaskCompleted
                  then handleCompleted (t\<lparr> tStatus := st, tOutput := JUndefined \<rparr>) (reported s t st)
                  else handleFailed (t\<lparr> tStatus := st, tOutput := JUndefined \<rparr>) (reported s t st)) of
              Inl e \<Rightarrow>
                emit (SendEvent (ErrorEvent (tTransactionId t) e))
                  (processUpdateTask (workerUpdate t TaskInprogress) s)
            | Inr s' \<Rightarrow> s')"
proof -
  from aw have cur: "currentTask s = Some t" and mem: "t \<in> set (taskInstances s)"
    and sched: "tStatus t = TaskScheduled" and fresh: "freshIds s"
    by (auto simp: awaiting_def)
  have "worker st s = updateTask t st s"
    using cur by (simp add: worker_def)
  then show ?thesis
    by (simp only: updateTask_terminal [OF mem sched fresh st])
qed

text \<open>
  A failure below the retry limit: the task is reloaded, and the reloaded task is
  dispatched at once or a timer is sent for it.
\<close>

lemma updateTask_failed_retry:
  assumes mem: "t \<in> set (taskInstances s)" and sched: "tStatus t = TaskScheduled"
      and fresh: "freshIds s" and below: "tRetries t < tRetryLimit t"
  shows "updateTask t TaskFailed s =
           s\<lparr> taskInstances := replaceTask (taskId t) (reloaded (nextId s) t) (taskInstances s),
               trace := trace s @
                 [Store TaskUpdate,
                  SendEvent (TaskEvent (t\<lparr> tStatus := TaskInprogress, tOutput := JUndefined \<rparr>)),
                  Store TaskUpdate,
                  SendEvent (TaskEvent (t\<lparr> tStatus := TaskFailed, tOutput := JUndefined \<rparr>)),
                  Store TaskReload]
                 @ retryEffects (clock s) (reloaded (nextId s) t),
               nextId := Suc (nextId s) \<rparr>"
proof -
  have same: "reloaded k (t\<lparr> tStatus := TaskFailed, tOutput := JUndefined \<rparr>) = reloaded k t" for k
    by (simp add: reloaded_def)
  have "handleFailed (t\<lparr> tStatus := TaskFailed, tOutput := JUndefined \<rparr>) (reported s t TaskFailed)
          = Inr (s\<lparr> taskInstances :=
                       replaceTask (taskId t) (reloaded (nextId s) t) (taskInstances s),
                     trace := trace s @
                       [Store TaskUpdate,
                        SendEvent (TaskEvent (t\<lparr> tStatus := TaskInprogress, tOutput := JUndefined \<rparr>)),
                        Store TaskUpdate,
                        SendEvent (TaskEvent (t\<lparr> tStatus := TaskFailed, tOutput := JUndefined \<rparr>)),
                        Store TaskReload]
                       @ retryEffects (clock s) (reloaded (nextId s) t),
                     nextId := Suc (nextId s) \<rparr>)"
    using below
    by (simp add: handleFailed_def reloadTask_def announceRetry_def emit_def Let_def same
          reported_def replaceTask_twice)
  then show ?thesis
    using updateTask_terminal [OF mem sched fresh, of TaskFailed] by simp
qed

text \<open>
  The same failure once the timer of a delayed retry has come due: in both cases the
  reloaded task is the one task dispatched, and it is stored as Scheduled.
\<close>

lemma failOnce_retry:
  assumes mem: "t \<in> set (taskInstances s)" and sched: "tStatus t = TaskScheduled"
      and fresh: "freshIds s" and below: "tRetries t < tRetryLimit t"
  shows "failOnce t s =
           (updateTask t TaskFailed s)
             \<lparr> clock := clock s + tRetryDelay t,
               trace := trace (updateTask t TaskFailed s) @
                 (if tRetryDelay t = 0 then []
                  else [Dispatch (reloaded (nextId s) t) (tTransactionId t)
                          (isSystemType (tType t))]) \<rparr>"
proof -
  let ?t' = "reloaded (nextId s) t"
  let ?s1 = "updateTask t TaskFailed s"
  note w = updateTask_failed_retry [OF mem sched fresh below]
  have tr: "trace ?s1 = trace s @
      ([Store TaskUpdate,
        SendEvent (TaskEvent (t\<lparr> tStatus := TaskInprogress, tOutput := JUndefined \<rparr>)),
        Store TaskUpdate,
        SendEvent (TaskEvent (t\<lparr> tStatus := TaskFailed, tOutput := JUndefined \<rparr>)),
        Store TaskReload] @ retryEffects (clock s) ?t')"
    by (simp add: w)
  have timers: "sentTimers (since s ?s1) =
      (if tRetryDelay t = 0 then [] else [(clock s + tRetryDelay t, ?t')])"
    by (simp add: since_append [OF tr] sentTimers_append retryEffects_def reloaded_fields)
  have ck: "clock ?s1 = clock s"
    by (simp add: w)
  show ?thesis
  proof (cases "tRetryDelay t = 0")
    case True
    from ck have "?s1\<lparr> clock := clock s, trace := trace ?s1 \<rparr> = ?s1"
      by (metis Engine.surjective Engine.update_convs(5,7))
    with True show ?thesis
      unfolding failOnce_def redelivered_def timers by simp
  next
    case False
    have ts: "taskInstances ?s1 = replaceTask (taskId t) ?t' (taskInstances s)"
      by (simp add: w)
    have "find (\<lambda>u. taskId u = taskId ?t') (taskInstances ?s1) = Some ?t'"
      unfolding ts reloaded_fields
      using mem fresh by (intro find_reloaded) (simp_all add: freshIds_def reloaded_fields)
    then have "processTimer (clock s + tRetryDelay t, ?t') ?s1 =
        ?s1\<lparr> clock := clock s + tRetryDelay t,
             trace := trace ?s1 @ [Dispatch ?t' (tTransactionId t) (isSystemType (tType t))] \<rparr>"
      by (simp add: processTimer_def Let_def emit_def ck reloaded_fields)
    with False show ?thesis
      unfolding failOnce_def redelivered_def timers by simp
  qed
qed

lemma failOnce_fields:
  assumes mem: "t \<in> set (taskInstances s)" and sched: "tStatus t = TaskScheduled"
      and fresh: "freshIds s" and below: "tRetries t < tRetryLimit t"
  shows "taskInstances (failOnce t s)
           = replaceTask (taskId t) (reloaded (nextId s) t) (taskInstances s)"
    and "nextId (failOnce t s) = Suc (nextId s)"
    and "workflowInstances (failOnce t s) = workflowInstances s"
    and "transactionInstances (failOnce t s) = transactionInstances s"
    and "dispatched (since s (failOnce t s)) = [reloaded (nextId s) t]"
  by (simp_all add: failOnce_retry [OF assms] updateTask_failed_retry [OF assms]
        since_def dispatched_append retryEffects_def reloaded_fields)

text \<open>Failures below the limit keep the retried task in progress.\<close>

lemma inProgress_reloaded:
  assumes ip: "inProgress s w t" and below: "tRetries t < tRetryLimit t"
  shows "retried s (failOnce t s) t = reloaded (nextId s) t"
    and "inProgress (failOnce t s) w (reloaded (nextId s) t)"
proof -
  from ip have mem: "t \<in> set (taskInstances s)" and sched: "tStatus t = TaskScheduled"
    and fresh: "freshIds s"
    by (auto simp: inProgress_def)
  note f = failOnce_fields [OF mem sched fresh below]
  show "retried s (failOnce t s) t = reloaded (nextId s) t"
    by (simp add: retried_def f(5))
  have m: "reloaded (nextId s) t \<in> set (taskInstances (failOnce t s))"
    unfolding f(1) using mem by (rule replaceTask_member)
  have i: "taskId (reloaded (nextId s) t) = nextId s"
    by (simp add: reloaded_def)
  have fr: "freshIds (failOnce t s)"
    unfolding freshIds_def f(1) f(2)
    using fresh freshIds_reloaded [OF _ _ i, of "taskInstances s" "taskId t"]
    by (simp add: freshIds_def)
  from m fr ip show "inProgress (failOnce t s) w (reloaded (nextId s) t)"
    by (simp add: inProgress_def transactionStatus_def reloaded_fields f(3,4))
qed

lemma retries_below_limit:
  assumes "inProgress s w t" and "tRetries t + n \<le> tRetryLimit t"
  shows "\<exists>t' s'. failTimes n t s = (t', s') \<and> inProgress s' w t'
            \<and> tRetries t' = tRetries t + n \<and> tRetryLimit t' = tRetryLimit t"
  using assms
proof (induction n arbitrary: t s)
  case 0
  then show ?case by simp
next
  case (Suc n)
  from Suc.prems have below: "tRetries t < tRetryLimit t" by simp
  note step = inProgress_reloaded [OF Suc.prems(1) below]
  have "tRetries (reloaded (nextId s) t) + n \<le> tRetryLimit (reloaded (nextId s) t)"
    using Suc.prems(2) by (simp add: reloaded_fields)
  from Suc.IH [OF step(2) this] show ?case
    by (simp add: step(1) reloaded_fields)
qed

text \<open>The failure that exhausts the retries, under the strategy Failed.\<close>

lemma updateTask_failed_exhausted_Failed:
  assumes ip: "inProgress s w t" and spent: "\<not> tRetries t < tRetryLimit t"
      and strategy: "defFailureStrategy (wDefinition w) = StrategyFailed"
      and x: "transactionInstances s (wTransactionId w) = Some x"
  shows "updateTask t TaskFailed s =
           (reported s t TaskFailed)
             \<lparr> transactionInstances :=
                 (transactionInstances s)(wTransactionId w \<mapsto> ended TransactionFailed (clock s) x),
               workflowInstances :=
                 (workflowInstances s)(workflowId w \<mapsto> w\<lparr> wStatus := WorkflowFailed \<rparr>),
               trace := trace (reported s t TaskFailed) @
                 [Store WorkflowUpdate, SendEvent (WorkflowEvent (w\<lparr> wStatus := WorkflowFailed \<rparr>)),
                  Store TransactionUpdate,
                  SendEvent (TransactionEvent (ended TransactionFailed (clock s) x))] \<rparr>"
proof -
  from ip have mem: "t \<in> set (taskInstances s)" and sched: "tStatus t = TaskScheduled"
    and fresh: "freshIds s" and wf: "workflowInstances s (workflowId w) = Some w"
    and run: "wStatus w = WorkflowRunning" and tw: "tWorkflowId t = workflowId w"
    and xs: "status x = TransactionRunning"
    using x by (auto simp: inProgress_def transactionStatus_def)
  have "handleFailed (t\<lparr> tStatus := TaskFailed, tOutput := JUndefined \<rparr>) (reported s t TaskFailed)
          = Inr ((reported s t TaskFailed)
             \<lparr> transactionInstances :=
                 (transactionInstances s)(wTransactionId w \<mapsto> ended TransactionFailed (clock s) x),
               workflowInstances :=
                 (workflowInstances s)(workflowId w \<mapsto> w\<lparr> wStatus := WorkflowFailed \<rparr>),
               trace := trace (reported s t TaskFailed) @
                 [Store WorkflowUpdate, SendEvent (WorkflowEvent (w\<lparr> wStatus := WorkflowFailed \<rparr>)),
                  Store TransactionUpdate,
                  SendEvent (TransactionEvent (ended TransactionFailed (clock s) x))] \<rparr>)"
    using spent wf run tw strategy x xs
    by (simp add: handleFailed_def reported_fields updateWorkflow_def andThen_def
          applyStrategy_def updateTransaction_def emit_def)
  then show ?thesis
    using updateTask_terminal [OF mem sched fresh, of TaskFailed] by simp
qed

lemma underWay_testAtT3: "underWay (testAtT3 f) (testWorkflow f) (testT3 f)"
  by (simp add: underWay_def awaiting_def freshIds_def transactionStatus_def engine_defs)

lemma inProgress_testAtT3: "inProgress (testAtT3 f) (testWorkflow f) (testT3 f)"
  using underWay_testAtT3 [of f] by (simp add: underWay_def awaiting_def inProgress_def)

lemma inProgress_delayedAtT3: "inProgress (delayedAtT3 f) (delayedWorkflow f) (delayedT3 f)"
  by (simp add: inProgress_def freshIds_def transactionStatus_def engine_defs
        delayedAtT3_def delayedWorkflow_def delayedT3_def delayedDefinition_def)

text \<open>
  C3. A task with no retries yet and a limit of 3 is in progress in a workflow with
  strategy Failed. The task fails three times and is retried each time, at once or
  when the timer of its retry delay has come due; the third retry is then in progress.
  The fourth failure dispatches nothing and sends no timer, emits the two TASK events,
  a WORKFLOW event and a TRANSACTION event of the Failed instances, and leaves the
  workflow instance and the transaction stored as Failed, the transaction with its
  \<open>endTime\<close> set.
\<close>

theorem exhausted_retries_fail_workflow_and_transaction:
  assumes ip: "inProgress s w t"
      and fresh: "tRetries t = 0" and limit: "tRetryLimit t = 3"
      and strategy: "defFailureStrategy (wDefinition w) = StrategyFailed"
  shows "\<exists>t3 s3 x.
           failTimes 3 t s = (t3, s3)
         \<and> inProgress s3 w t3
         \<and> transactionInstances s3 (wTransactionId w) = Some x
         \<and> dispatched (since s3 (updateTask t3 TaskFailed s3)) = []
         \<and> sentTimers (since s3 (updateTask t3 TaskFailed s3)) = []
         \<and> sentEvents (since s3 (updateTask t3 TaskFailed s3))
             = [TaskEvent (t3\<lparr> tStatus := TaskInprogress, tOutput := JUndefined \<rparr>),
                TaskEvent (t3\<lparr> tStatus := TaskFailed, tOutput := JUndefined \<rparr>),
                WorkflowEvent (w\<lparr> wStatus := WorkflowFailed \<rparr>),
                TransactionEvent (x\<lparr> status := TransactionFailed, endTime := Some (clock s3) \<rparr>)]
         \<and> workflowInstances (updateTask t3 TaskFailed s3) (workflowId w)
             = Some (w\<lparr> wStatus := WorkflowFailed \<rparr>)
         \<and> transactionInstances (updateTask t3 TaskFailed s3) (wTransactionId w)
             = Some (x\<lparr> status := TransactionFailed, endTime := Some (clock s3) \<rparr>)"
proof -
  from retries_below_limit [OF ip, of 3] fresh limit
  obtain t3 s3 where run: "failTimes 3 t s = (t3, s3)" and t3: "inProgress s3 w t3"
      "tRetries t3 = 3" "tRetryLimit t3 = 3"
    by auto
  from t3(1) obtain x where x: "transactionInstances s3 (wTransactionId w) = Some x"
    by (auto simp: inProgress_def transactionStatus_def)
  from t3(2,3) have spent: "\<not> tRetries t3 < tRetryLimit t3" by simp
  note w4 = updateTask_failed_exhausted_Failed [OF t3(1) spent strategy x]
  have e: "ended TransactionFailed (clock s3) x
             = x\<lparr> status := TransactionFailed, endTime := Some (clock s3) \<rparr>"
    by (simp add: ended_def terminalTransaction_def)
  have tr: "trace (updateTask t3 TaskFailed s3) = trace s3 @
      [Store TaskUpdate,
       SendEvent (TaskEvent (t3\<lparr> tStatus := TaskInprogress, tOutput := JUndefined \<rparr>)),
       Store TaskUpdate,
       SendEvent (TaskEvent (t3\<lparr> tStatus := TaskFailed, tOutput := JUndefined \<rparr>)),
       Store WorkflowUpdate, SendEvent (WorkflowEvent (w\<lparr> wStatus := WorkflowFailed \<rparr>)),
       Store TransactionUpdate,
       SendEvent (TransactionEvent (x\<lparr> status := TransactionFailed, endTime := Some (clock s3) \<rparr>))]"
    by (simp add: w4 reported_def e)
  have wf: "workflowInstances (updateTask t3 TaskFailed s3) (workflowId w)
              = Some (w\<lparr> wStatus := WorkflowFailed \<rparr>)"
    and tx: "transactionInstances (updateTask t3 TaskFailed s3) (wTransactionId w)
              = Some (x\<lparr> status := TransactionFailed, endTime := Some (clock s3) \<rparr>)"
    by (simp_all add: w4 e)
  from run t3(1) x wf tx since_append [OF tr] show ?thesis
    by (intro exI [of _ t3] exI [of _ s3] exI [of _ x]) simp
qed

theorem exhausted_retries_fail_workflow_and_transaction_witness:
  "(\<exists>t3 s3 x.
      failTimes 3 (testT3 StrategyFailed) (testAtT3 StrategyFailed) = (t3, s3)
    \<and> dispatched (since s3 (updateTask t3 TaskFailed s3)) = []
    \<and> sentEvents (since s3 (updateTask t3 TaskFailed s3))
        = [TaskEvent (t3\<lparr> tStatus := TaskInprogress, tOutput := JUndefined \<rparr>),
           TaskEvent (t3\<lparr> tStatus := TaskFailed, tOutput := JUndefined \<rparr>),
           WorkflowEvent ((testWorkflow StrategyFailed)\<lparr> wStatus := WorkflowFailed \<rparr>),
           TransactionEvent (x\<lparr> status := TransactionFailed, endTime := Some (clock s3) \<rparr>)]
    \<and> workflowInstances (updateTask t3 TaskFailed s3) 0
        = Some ((testWorkflow StrategyFailed)\<lparr> wStatus := WorkflowFailed \<rparr>)
    \<and> transactionInstances (updateTask t3 TaskFailed s3) ''TX''
        = Some (x\<lparr> status := TransactionFailed, endTime := Some (clock s3) \<rparr>))
   \<and> (\<exists>t3 s3 x.
      failTimes 3 (delayedT3 StrategyFailed) (delayedAtT3 StrategyFailed) = (t3, s3)
    \<and> dispatched (since s3 (updateTask t3 TaskFailed s3)) = []
    \<and> sentTimers (since s3 (updateTask t3 TaskFailed s3)) = []
    \<and> workflowInstances (updateTask t3 TaskFailed s3) 0
        = Some ((delayedWorkflow StrategyFailed)\<lparr> wStatus := WorkflowFailed \<rparr>)
    \<and> transactionInstances (updateTask t3 TaskFailed s3) ''TX''
        = Some (x\<lparr> status := TransactionFailed, endTime := Some (clock s3) \<rparr>))"
proof -
  have a: "tRetries (testT3 StrategyFailed) = 0" and b: "tRetryLimit (testT3 StrategyFailed) = 3"
    by (simp_all add: testT3_def newTask_def testNode_def)
  have c: "defFailureStrategy (wDefinition (testWorkflow StrategyFailed)) = StrategyFailed"
    by (simp add: testWorkflow_def testDefinition_def)
  have d: "workflowId (testWorkflow StrategyFailed) = 0"
    and e: "wTransactionId (testWorkflow StrategyFailed) = ''TX''"
    by (simp_all add: testWorkflow_def)
  have a': "tRetries (delayedT3 StrategyFailed) = 0"
    and b': "tRetryLimit (delayedT3 StrategyFailed) = 3"
    by (simp_all add: delayedT3_def testT3_def newTask_def testNode_def)
  have c': "defFailureStrategy (wDefinition (delayedWorkflow StrategyFailed)) = StrategyFailed"
    by (simp add: delayedWorkflow_def delayedDefinition_def testDefinition_def)
  have d': "workflowId (delayedWorkflow StrategyFailed) = 0"
    and e': "wTransactionId (delayedWorkflow StrategyFailed) = ''TX''"
    by (simp_all add: delayedWorkflow_def testWorkflow_def)
  from exhausted_retries_fail_workflow_and_transaction [OF inProgress_testAtT3 a b c]
  have first: "\<exists>t3 s3 x.
      failTimes 3 (testT3 StrategyFailed) (testAtT3 StrategyFailed) = (t3, s3)
    \<and> dispatched (since s3 (updateTask t3 TaskFailed s3)) = []
    \<and> sentEvents (since s3 (updateTask t3 TaskFailed s3))
        = [TaskEvent (t3\<lparr> tStatus := TaskInprogress, tOutput := JUndefined \<rparr>),
           TaskEvent (t3\<lparr> tStatus := TaskFailed, tOutput := JUndefined \<rparr>),
           WorkflowEvent ((testWorkflow StrategyFailed)\<lparr> wStatus := WorkflowFailed \<rparr>),
           TransactionEvent (x\<lparr> status := TransactionFailed, endTime := Some (clock s3) \<rparr>)]
    \<and> workflowInstances (updateTask t3 TaskFailed s3) 0
        = Some ((testWorkflow StrategyFailed)\<lparr> wStatus := WorkflowFailed \<rparr>)
    \<and> transactionInstances (updateTask t3 TaskFailed s3) ''TX''
        = Some (x\<lparr> status := TransactionFailed, endTime := Some (clock s3) \<rparr>)"
    unfolding d e by blast
  from exhausted_retries_fail_workflow_and_transaction [OF inProgress_delayedAtT3 a' b' c']
  have second: "\<exists>t3 s3 x.
      failTimes 3 (delayedT3 StrategyFailed) (delayedAtT3 StrategyFailed) = (t3, s3)
    \<and> dispatched (since s3 (updateTask t3 TaskFailed s3)) = []
    \<and> sentTimers (since s3 (updateTask t3 TaskFailed s3)) = []
    \<and> workflowInstances (updateTask t3 TaskFailed s3) 0
        = Some ((delayedWorkflow StrategyFailed)\<lparr> wStatus := WorkflowFailed \<rparr>)
    \<and> transactionInstances (updateTask t3 TaskFailed s3) ''TX''
        = Some (x\<lparr> status := TransactionFailed, endTime := Some (clock s3) \<rparr>)"
    unfolding d' e' by blast
  from first second show ?thesis by (rule conjI)
qed

lemma freshIds_ids:
  "freshIds s =
     (distinct (map taskId (taskInstances s))
        \<and> (\<forall>i \<in> set (map taskId (taskInstances s)). i < nextId s))"
  by (auto simp: freshIds_def list_all_iff)

lemma freshIds_scheduled:
  assumes "freshIds s" and "map taskId ts = map taskId (taskInstances s)"
      and "nextId s \<le> k"
  shows "freshIds (s\<lparr> taskInstances := ts @ [newTask w i n k], nextId := Suc k, trace := tr \<rparr>)"
  using assms by (auto simp: freshIds_ids newTask_def)

text \<open>Scheduling a node after a reported task: the new task awaits its worker.\<close>

lemma awaiting_scheduled:
  assumes aw: "awaiting s t"
  shows "awaiting (scheduleTask w i n (reported s t st)) (newTask w i n (nextId s))"
proof -
  from aw have fresh: "freshIds s" by (simp add: awaiting_def)
  let ?t' = "newTask w i n (nextId s)"
  let ?ts = "replaceTask (taskId t) (t\<lparr> tStatus := st, tOutput := JUndefined \<rparr>) (taskInstances s)"
  have ids: "map taskId ?ts = map taskId (taskInstances s)"
    by (rule taskId_replaceTask) simp
  have eq: "scheduleTask w i n (reported s t st) =
      s\<lparr> taskInstances := ?ts @ [?t'], nextId := Suc (nextId s),
         trace := trace (reported s t st) @
           [Store TaskCreate, Dispatch ?t' (tTransactionId ?t') (isSystemType (tType ?t')),
            SendEvent (TaskEvent ?t')] \<rparr>"
    by (simp add: scheduleTask_def reported_def announce_def emit_def Let_def)
  have "freshIds (scheduleTask w i n (reported s t st))"
    unfolding eq using fresh ids by (rule freshIds_scheduled) simp
  moreover have "currentTask (scheduleTask w i n (reported s t st)) = Some ?t'"
    by (simp add: eq currentTask_def dispatched_append)
  moreover have "?t' \<in> set (taskInstances (scheduleTask w i n (reported s t st)))"
    by (simp add: eq)
  moreover have "tStatus ?t' = TaskScheduled"
    by (simp add: newTask_def)
  ultimately show ?thesis
    by (simp add: awaiting_def)
qed

lemma scheduled_fields:
  "workflowInstances (scheduleTask w i n s) = workflowInstances s"
  "transactionInstances (scheduleTask w i n s) = transactionInstances s"
  "nextId (scheduleTask w i n s) = Suc (nextId s)"
  by (simp_all add: scheduleTask_def announce_def emit_def Let_def)

text \<open>The completion of a task that has a next sibling.\<close>

lemma worker_completed_next:
  assumes uw: "underWay s w t" and more: "Suc (tIndex t) < length (defTasks (wDefinition w))"
  shows "worker TaskCompleted s =
           scheduleTask w (Suc (tIndex t)) (defTasks (wDefinition w) ! Suc (tIndex t))
             (reported s t TaskCompleted)"
proof -
  from uw have aw: "awaiting s t" and wf: "workflowInstances s (workflowId w) = Some w"
    and tw: "tWorkflowId t = workflowId w"
    by (auto simp: underWay_def)
  from more have "drop (Suc (tIndex t)) (defTasks (wDefinition w)) =
      defTasks (wDefinition w) ! Suc (tIndex t) # drop (Suc (Suc (tIndex t))) (defTasks (wDefinition w))"
    by (simp add: Cons_nth_drop_Suc)
  then have "handleCompleted (t\<lparr> tStatus := TaskCompleted, tOutput := JUndefined \<rparr>)
               (reported s t TaskCompleted)
             = Inr (scheduleTask w (Suc (tIndex t)) (defTasks (wDefinition w) ! Suc (tIndex t))
                      (reported s t TaskCompleted))"
    using wf tw by (simp add: handleCompleted_def reported_fields)
  then show ?thesis
    using worker_terminal [OF aw, of TaskCompleted] by simp
qed

lemma underWay_next:
  assumes uw: "underWay s w t" and more: "Suc (tIndex t) < length (defTasks (wDefinition w))"
  shows "underWay (worker TaskCompleted s) w
           (newTask w (Suc (tIndex t)) (defTasks (wDefinition w) ! Suc (tIndex t)) (nextId s))"
proof -
  from uw have aw: "awaiting s t" by (simp add: underWay_def)
  note eq = worker_completed_next [OF uw more]
  have "awaiting (worker TaskCompleted s)
          (newTask w (Suc (tIndex t)) (defTasks (wDefinition w) ! Suc (tIndex t)) (nextId s))"
    unfolding eq using aw by (rule awaiting_scheduled)
  then show ?thesis
    using uw more
    by (simp add: underWay_def eq scheduled_fields reported_fields transactionStatus_def
          newTask_def)
qed

text \<open>The completion of the last task of a compensation.\<close>

lemma worker_completed_last_compensate:
  assumes uw: "underWay s w t" and last: "Suc (tIndex t) = length (defTasks (wDefinition w))"
      and kind: "wType w = KindCompensateWorkflow"
  shows "transactionStatus (wTransactionId w) (worker TaskCompleted s) = Some TransactionCompensated"
proof -
  from uw have aw: "awaiting s t" and wf: "workflowInstances s (workflowId w) = Some w"
    and run: "wStatus w = WorkflowRunning" and tw: "tWorkflowId t = workflowId w"
    and tx: "transactionStatus (wTransactionId w) s = Some TransactionRunning"
    by (auto simp: underWay_def)
  from tx obtain x where x: "transactionInstances s (wTransactionId w) = Some x"
    and xs: "status x = TransactionRunning"
    by (auto simp: transactionStatus_def)
  have "\<exists>s'. handleCompleted (t\<lparr> tStatus := TaskCompleted, tOutput := JUndefined \<rparr>)
               (reported s t TaskCompleted) = Inr s'
            \<and> transactionStatus (wTransactionId w) s' = Some TransactionCompensated"
    using wf tw last run kind x xs
    by (simp add: handleCompleted_def reported_fields completeWorkflow_def completeFinal_def
          updateWorkflow_def updateTransaction_def andThen_def emit_def transactionStatus_def
          ended_def)
  then show ?thesis
    using worker_terminal [OF aw, of TaskCompleted] by auto
qed

lemma compensation_runs_to_Compensated:
  assumes "underWay s w t" and "wType w = KindCompensateWorkflow"
      and "tIndex t + n = length (defTasks (wDefinition w))"
  shows "transactionStatus (wTransactionId w) ((worker TaskCompleted ^^ n) s)
           = Some TransactionCompensated
       \<and> (\<forall>j < n. transactionStatus (wTransactionId w) ((worker TaskCompleted ^^ j) s)
                     = Some TransactionRunning)"
  using assms
proof (induction n arbitrary: s t)
  case 0
  then show ?case by (simp add: underWay_def)
next
  case (Suc n)
  have here: "transactionStatus (wTransactionId w) s = Some TransactionRunning"
    using Suc.prems(1) by (simp add: underWay_def)
  show ?case
  proof (cases n)
    case 0
    with Suc.prems have "Suc (tIndex t) = length (defTasks (wDefinition w))" by simp
    with Suc.prems have "transactionStatus (wTransactionId w) (worker TaskCompleted s)
        = Some TransactionCompensated"
      by (intro worker_completed_last_compensate)
    with 0 here show ?thesis by simp
  next
    case (Suc m)
    with Suc.prems have more: "Suc (tIndex t) < length (defTasks (wDefinition w))" by simp
    let ?t' = "newTask w (Suc (tIndex t)) (defTasks (wDefinition w) ! Suc (tIndex t)) (nextId s)"
    have uw': "underWay (worker TaskCompleted s) w ?t'"
      using Suc.prems(1) more by (rule underWay_next)
    have idx: "tIndex ?t' + n = length (defTasks (wDefinition w))"
      using Suc.prems(3) by (simp add: newTask_def)
    note IH = Suc.IH [OF uw' Suc.prems(2) idx]
    have shift: "(worker TaskCompleted ^^ k) (worker TaskCompleted s)
                   = (worker TaskCompleted ^^ Suc k) s" for k
      by (simp add: funpow_swap1)
    show ?thesis
    proof (intro conjI allI impI)
      show "transactionStatus (wTransactionId w) ((worker TaskCompleted ^^ Suc n) s)
              = Some TransactionCompensated"
        using IH by (simp only: shift)
    next
      fix j assume "j < Suc n"
      show "transactionStatus (wTransactionId w) ((worker TaskCompleted ^^ j) s)
              = Some TransactionRunning"
      proof (cases j)
        case 0
        with here show ?thesis by simp
      next
        case (Suc i)
        with \<open>j < Suc n\<close> have "i < n" by simp
        with IH have "transactionStatus (wTransactionId w)
            ((worker TaskCompleted ^^ i) (worker TaskCompleted s)) = Some TransactionRunning"
          by blast
        with Suc show ?thesis by (simp only: shift)
      qed
    qed
  qed
qed

lemma filter_replaceTask:
  assumes "distinct (map taskId ts)" "t \<in> set ts" "\<not> P t" "\<not> P a"
  shows "filter P (replaceTask (taskId t) a ts) = filter P ts"
  using assms
proof (induction ts)
  case Nil
  then show ?case by simp
next
  case (Cons u ts)
  show ?case
  proof (cases "taskId u = taskId t")
    case True
    from Cons.prems(1) True have absent: "taskId t \<notin> taskId ` set ts" by simp
    with Cons.prems(2) have "u = t" by auto
    moreover from absent have "replaceTask (taskId t) a ts = ts"
      by (rule replaceTask_absent)
    ultimately show ?thesis
      using Cons.prems(3,4) by (simp add: replaceTask_Cons)
  next
    case False
    with Cons.prems(2) have "t \<in> set ts" by auto
    with Cons have "filter P (replaceTask (taskId t) a ts) = filter P ts" by simp
    with False show ?thesis by (simp add: replaceTask_Cons)
  qed
qed

lemma freshIds_cong:
  assumes "freshIds s" and "map taskId (taskInstances s') = map taskId (taskInstances s)"
      and "nextId s \<le> nextId s'"
  shows "freshIds s'"
  using assms by (auto simp: freshIds_ids)

lemma awaiting_scheduleTask:
  assumes fresh: "freshIds s"
  shows "awaiting (scheduleTask w i n s) (newTask w i n (nextId s))"
proof -
  let ?t' = "newTask w i n (nextId s)"
  have eq: "scheduleTask w i n s =
      s\<lparr> taskInstances := taskInstances s @ [?t'], nextId := Suc (nextId s),
         trace := trace s @
           [Store TaskCreate, Dispatch ?t' (tTransactionId ?t') (isSystemType (tType ?t')),
            SendEvent (TaskEvent ?t')] \<rparr>"
    by (simp add: scheduleTask_def announce_def emit_def Let_def)
  have "freshIds (scheduleTask w i n s)"
    unfolding eq using fresh by (intro freshIds_scheduled) simp_all
  moreover have "currentTask (scheduleTask w i n s) = Some ?t'"
    by (simp add: eq currentTask_def dispatched_append)
  moreover have "?t' \<in> set (taskInstances (scheduleTask w i n s))"
    by (simp add: eq)
  moreover have "tStatus ?t' = TaskScheduled"
    by (simp add: newTask_def)
  ultimately show ?thesis
    by (simp add: awaiting_def)
qed

text \<open>The failure that exhausts the retries, under the strategy Compensate.\<close>

lemma worker_failed_exhausted_Compensate:
  assumes uw: "underWay s w t" and spent: "\<not> tRetries t < tRetryLimit t"
      and strategy: "defFailureStrategy (wDefinition w) = StrategyCompensate"
  shows "workflowInstances (worker TaskFailed s) (workflowId w)
           = Some (w\<lparr> wStatus := WorkflowFailed \<rparr>)
       \<and> filter (\<lambda>c. c = WorkflowCreate) (storeCalls (since s (worker TaskFailed s)))
           = [WorkflowCreate]
       \<and> (\<exists>cw. workflowInstances (worker TaskFailed s) (nextId s) = Some cw
              \<and> workflowId cw = nextId s
              \<and> wType cw = KindCompensateWorkflow
              \<and> wTransactionId cw = wTransactionId w
              \<and> defTasks (wDefinition cw)
                  = map compensateNode
                      (rev (filter (toCompensate (workflowId w)) (taskInstances s)))
              \<and> (if defTasks (wDefinition cw) = []
                  then transactionStatus (wTransactionId w) (worker TaskFailed s)
                         = Some TransactionCompensated
                  else (\<exists>t0. underWay (worker TaskFailed s) cw t0 \<and> tIndex t0 = 0)))"
proof -
  from uw have aw: "awaiting s t" and wf: "workflowInstances s (workflowId w) = Some w"
    and run: "wStatus w = WorkflowRunning" and tw: "tWorkflowId t = workflowId w"
    and old: "workflowId w < nextId s"
    and tx: "transactionStatus (wTransactionId w) s = Some TransactionRunning"
    by (auto simp: underWay_def)
  from aw have mem: "t \<in> set (taskInstances s)" and sched: "tStatus t = TaskScheduled"
    and fresh: "freshIds s"
    by (auto simp: awaiting_def)
  from tx obtain x where x: "transactionInstances s (wTransactionId w) = Some x"
    and xs: "status x = TransactionRunning"
    by (auto simp: transactionStatus_def)
  let ?tF = "t\<lparr> tStatus := TaskFailed, tOutput := JUndefined \<rparr>"
  define s2 where "s2 = reported s t TaskFailed"
  define nodes where "nodes = compensateTasks (workflowId w) (taskInstances s2)"
  define d where "d = (wDefinition w)\<lparr> defTasks := nodes, defFailureStrategy := StrategyFailed \<rparr>"
  define cw where "cw = \<lparr> workflowId = nextId s, wTransactionId = wTransactionId w,
      wType = KindCompensateWorkflow, wStatus = WorkflowRunning, wDefinition = d, wRetries = 0 \<rparr>"
  define s3 where "s3 = s2\<lparr> workflowInstances :=
        (workflowInstances s)(workflowId w \<mapsto> w\<lparr> wStatus := WorkflowFailed \<rparr>, nextId s \<mapsto> cw),
      nextId := Suc (nextId s),
      trace := trace s2 @
        [Store WorkflowUpdate, SendEvent (WorkflowEvent (w\<lparr> wStatus := WorkflowFailed \<rparr>)),
         Store WorkflowCreate, SendEvent (WorkflowEvent cw)] \<rparr>"
  have nodes: "nodes = map compensateNode
      (rev (filter (toCompensate (workflowId w)) (taskInstances s)))"
  proof -
    have "filter (toCompensate (workflowId w)) (replaceTask (taskId t) ?tF (taskInstances s))
            = filter (toCompensate (workflowId w)) (taskInstances s)"
      using fresh mem sched
      by (intro filter_replaceTask) (simp_all add: freshIds_def toCompensate_def)
    then show ?thesis
      by (simp add: nodes_def s2_def reported_def compensateTasks_def)
  qed
  have s2_fields: "workflowInstances s2 = workflowInstances s"
      "transactionInstances s2 = transactionInstances s" "nextId s2 = nextId s"
      "clock s2 = clock s"
    by (simp_all add: s2_def reported_fields)
  have hf: "handleFailed ?tF s2 =
      (case nodes of
         [] \<Rightarrow> completeWorkflow cw s3
       | node # rest \<Rightarrow> Inr (scheduleTask cw 0 node s3))"
    using spent wf run tw strategy
    by (simp add: handleFailed_def s2_fields updateWorkflow_def andThen_def applyStrategy_def
          startCompensation_def createWorkflow_def emit_def Let_def
          nodes_def d_def cw_def s3_def cong: list.case_cong)
  have w_eq: "worker TaskFailed s =
      (case handleFailed ?tF s2 of
         Inl e \<Rightarrow> emit (SendEvent (ErrorEvent (tTransactionId t) e))
                    (processUpdateTask (workerUpdate t TaskInprogress) s)
       | Inr s' \<Rightarrow> s')"
    using worker_terminal [OF aw, of TaskFailed] by (simp add: s2_def)
  have tr2: "trace s2 = trace s @
      [Store TaskUpdate,
       SendEvent (TaskEvent (t\<lparr> tStatus := TaskInprogress, tOutput := JUndefined \<rparr>)),
       Store TaskUpdate, SendEvent (TaskEvent ?tF)]"
    by (simp add: s2_def reported_def)
  have cw_fields: "workflowId cw = nextId s" "wType cw = KindCompensateWorkflow"
      "wTransactionId cw = wTransactionId w" "defTasks (wDefinition cw) = nodes"
      "wStatus cw = WorkflowRunning"
    by (simp_all add: cw_def d_def)
  show ?thesis
  proof (cases nodes)
    case Nil
    let ?cwC = "cw\<lparr> wStatus := WorkflowCompleted \<rparr>"
    let ?xC = "ended TransactionCompensated (clock s) x"
    have res: "worker TaskFailed s =
        s3\<lparr> workflowInstances := (workflowInstances s3)(nextId s \<mapsto> ?cwC),
            transactionInstances := (transactionInstances s)(wTransactionId w \<mapsto> ?xC),
            trace := trace s3 @
              [Store WorkflowUpdate, SendEvent (WorkflowEvent ?cwC),
               Store TransactionUpdate, SendEvent (TransactionEvent ?xC)] \<rparr>"
      using Nil x xs
      by (simp add: w_eq hf completeWorkflow_def completeFinal_def cw_fields
            updateWorkflow_def updateTransaction_def andThen_def emit_def s3_def s2_fields)
    have tr: "trace (worker TaskFailed s) = trace s @
        [Store TaskUpdate,
         SendEvent (TaskEvent (t\<lparr> tStatus := TaskInprogress, tOutput := JUndefined \<rparr>)),
         Store TaskUpdate, SendEvent (TaskEvent ?tF),
         Store WorkflowUpdate, SendEvent (WorkflowEvent (w\<lparr> wStatus := WorkflowFailed \<rparr>)),
         Store WorkflowCreate, SendEvent (WorkflowEvent cw),
         Store WorkflowUpdate, SendEvent (WorkflowEvent ?cwC),
         Store TransactionUpdate, SendEvent (TransactionEvent ?xC)]"
      by (simp add: res s3_def tr2)
    have a: "workflowInstances (worker TaskFailed s) (workflowId w)
               = Some (w\<lparr> wStatus := WorkflowFailed \<rparr>)"
      using old by (simp add: res s3_def)
    have c: "workflowInstances (worker TaskFailed s) (nextId s) = Some ?cwC"
      by (simp add: res)
    have e: "transactionStatus (wTransactionId w) (worker TaskFailed s)
               = Some TransactionCompensated"
      by (simp add: res transactionStatus_def ended_def terminalTransaction_def)
    from a c e Nil nodes since_append [OF tr] show ?thesis
      by (intro conjI exI [of _ ?cwC]) (simp_all add: cw_fields)
  next
    case (Cons node rest)
    let ?t0 = "newTask cw 0 node (Suc (nextId s))"
    have res: "worker TaskFailed s = scheduleTask cw 0 node s3"
      using Cons by (simp add: w_eq hf)
    have fresh3: "freshIds s3"
      using fresh
      by (rule freshIds_cong)
         (simp_all add: s3_def s2_def reported_def taskId_replaceTask)
    have n3: "nextId s3 = Suc (nextId s)"
      by (simp add: s3_def)
    have aw0: "awaiting (worker TaskFailed s) ?t0"
      unfolding res using awaiting_scheduleTask [OF fresh3, of cw 0 node] by (simp add: n3)
    have tr: "trace (worker TaskFailed s) = trace s @
        [Store TaskUpdate,
         SendEvent (TaskEvent (t\<lparr> tStatus := TaskInprogress, tOutput := JUndefined \<rparr>)),
         Store TaskUpdate, SendEvent (TaskEvent ?tF),
         Store WorkflowUpdate, SendEvent (WorkflowEvent (w\<lparr> wStatus := WorkflowFailed \<rparr>)),
         Store WorkflowCreate, SendEvent (WorkflowEvent cw),
         Store TaskCreate, Dispatch ?t0 (tTransactionId ?t0) (isSystemType (tType ?t0)),
         SendEvent (TaskEvent ?t0)]"
      by (simp add: res scheduleTask_def announce_def emit_def Let_def s3_def tr2 s2_fields)
    have a: "workflowInstances (worker TaskFailed s) (workflowId w)
               = Some (w\<lparr> wStatus := WorkflowFailed \<rparr>)"
      using old by (simp add: res scheduled_fields s3_def)
    have c: "workflowInstances (worker TaskFailed s) (nextId s) = Some cw"
      by (simp add: res scheduled_fields s3_def)
    have e: "transactionStatus (wTransactionId w) (worker TaskFailed s)
               = Some TransactionRunning"
      using tx by (simp add: res scheduled_fields s3_def s2_fields transactionStatus_def)
    have uw0: "underWay (worker TaskFailed s) cw ?t0"
      using aw0 c e Cons
      by (simp add: underWay_def cw_fields res scheduled_fields n3 newTask_def)
    have "\<exists>t0. underWay (worker TaskFailed s) cw t0 \<and> tIndex t0 = 0"
      using uw0 by (intro exI [of _ ?t0]) (simp add: newTask_def)
    with a c Cons nodes since_append [OF tr] show ?thesis
      by (intro conjI exI [of _ cw]) (simp_all add: cw_fields)
  qed
qed

lemma underWay_testExhausted: "underWay (testExhausted f) (testWorkflow f) (testT3Last f)"
  by (simp add: underWay_def awaiting_def freshIds_def transactionStatus_def engine_defs)

text \<open>
  C1. A workflow with strategy Compensate is under way at a task whose retries are used
  up, and the task fails. The workflow is stored as Failed; the workflow store is asked
  for one create; the created instance is a CompensateWorkflow whose tasks are the
  Compensate nodes of the Completed task instances of the failed workflow (Decision and
  Parallel containers apart), one each, in reverse order; and once the worker has
  completed as many tasks as there are, and not before, the transaction is
  Compensated.
\<close>

theorem compensate_strategy_compensates_in_reverse:
  assumes uw: "underWay s w t" and spent: "\<not> tRetries t < tRetryLimit t"
      and strategy: "defFailureStrategy (wDefinition w) = StrategyCompensate"
  shows "workflowInstances (worker TaskFailed s) (workflowId w)
           = Some (w\<lparr> wStatus := WorkflowFailed \<rparr>)
       \<and> filter (\<lambda>c. c = WorkflowCreate) (storeCalls (since s (worker TaskFailed s)))
           = [WorkflowCreate]
       \<and> (\<exists>cw. workflowInstances (worker TaskFailed s) (nextId s) = Some cw
              \<and> wType cw = KindCompensateWorkflow
              \<and> defTasks (wDefinition cw)
                  = map compensateNode
                      (rev (filter (toCompensate (workflowId w)) (taskInstances s))))
       \<and> transactionStatus (wTransactionId w)
            ((worker TaskCompleted
                ^^ length (filter (toCompensate (workflowId w)) (taskInstances s)))
               (worker TaskFailed s))
           = Some TransactionCompensated
       \<and> (\<forall>j < length (filter (toCompensate (workflowId w)) (taskInstances s)).
             transactionStatus (wTransactionId w)
               ((worker TaskCompleted ^^ j) (worker TaskFailed s))
             = Some TransactionRunning)"
proof -
  let ?s' = "worker TaskFailed s"
  let ?finished = "filter (toCompensate (workflowId w)) (taskInstances s)"
  from worker_failed_exhausted_Compensate [OF uw spent strategy]
  obtain cw where failed: "workflowInstances ?s' (workflowId w) = Some (w\<lparr> wStatus := WorkflowFailed \<rparr>)"
    and one: "filter (\<lambda>c. c = WorkflowCreate) (storeCalls (since s ?s')) = [WorkflowCreate]"
    and cw: "workflowInstances ?s' (nextId s) = Some cw" "wType cw = KindCompensateWorkflow"
      "wTransactionId cw = wTransactionId w"
      "defTasks (wDefinition cw) = map compensateNode (rev ?finished)"
    and rest: "if defTasks (wDefinition cw) = []
               then transactionStatus (wTransactionId w) ?s' = Some TransactionCompensated
               else (\<exists>t0. underWay ?s' cw t0 \<and> tIndex t0 = 0)"
    by blast
  have run: "transactionStatus (wTransactionId w) ((worker TaskCompleted ^^ length ?finished) ?s')
               = Some TransactionCompensated
           \<and> (\<forall>j < length ?finished.
                 transactionStatus (wTransactionId w) ((worker TaskCompleted ^^ j) ?s')
                 = Some TransactionRunning)"
  proof (cases "?finished = []")
    case True
    with rest cw(4) show ?thesis by simp
  next
    case False
    with rest cw(4) obtain t0 where t0: "underWay ?s' cw t0" "tIndex t0 = 0"
      by auto
    have "tIndex t0 + length ?finished = length (defTasks (wDefinition cw))"
      using t0(2) cw(4) by simp
    from compensation_runs_to_Compensated [OF t0(1) cw(2) this] show ?thesis
      unfolding cw(3) .
  qed
  from failed one cw run show ?thesis by blast
qed

theorem compensate_strategy_compensates_in_reverse_witness:
  "workflowInstances (worker TaskFailed (testExhausted StrategyCompensate)) 0
     = Some ((testWorkflow StrategyCompensate)\<lparr> wStatus := WorkflowFailed \<rparr>)
   \<and> (\<exists>cw. workflowInstances (worker TaskFailed (testExhausted StrategyCompensate)) 7 = Some cw
          \<and> wType cw = KindCompensateWorkflow
          \<and> map nodeRef (defTasks (wDefinition cw)) = [''t2'', ''t1'']
          \<and> map nodeType (defTasks (wDefinition cw)) = [TypeCompensate, TypeCompensate])
   \<and> transactionStatus ''TX''
        (worker TaskCompleted (worker TaskCompleted
           (worker TaskFailed (testExhausted StrategyCompensate))))
       = Some TransactionCompensated
   \<and> transactionStatus ''TX''
        (worker TaskCompleted (worker TaskFailed (testExhausted StrategyCompensate)))
       = Some TransactionRunning"
proof -
  have spent: "\<not> tRetries (testT3Last StrategyCompensate) < tRetryLimit (testT3Last StrategyCompensate)"
    by (simp add: testT3Last_def reloaded_def testT3_def newTask_def testNode_def)
  have strategy: "defFailureStrategy (wDefinition (testWorkflow StrategyCompensate)) = StrategyCompensate"
    by (simp add: testWorkflow_def testDefinition_def)
  have ids: "workflowId (testWorkflow StrategyCompensate) = 0"
      "wTransactionId (testWorkflow StrategyCompensate) = ''TX''"
      "nextId (testExhausted StrategyCompensate) = 7"
    by (simp_all add: engine_defs)
  have finished: "filter (toCompensate 0) (taskInstances (testExhausted StrategyCompensate))
      = [(newTask (testWorkflow StrategyCompensate) 0 (testNode ''t1'') 1)\<lparr> tStatus := TaskCompleted \<rparr>,
         (newTask (testWorkflow StrategyCompensate) 1 (testNode ''t2'') 2)\<lparr> tStatus := TaskCompleted \<rparr>]"
    by (simp add: engine_defs)
  have two: "(worker TaskCompleted ^^ 2) s = worker TaskCompleted (worker TaskCompleted s)" for s
    by (simp add: numeral_2_eq_2)
  from compensate_strategy_compensates_in_reverse [OF underWay_testExhausted spent strategy]
  show ?thesis
    unfolding ids finished
    apply (simp add: two)
    apply (elim conjE exE)
    apply (intro conjI)
    subgoal for cw by (intro exI [of _ cw]) (simp add: compensateNode_def newTask_def testNode_def)
    subgoal by (drule spec [of _ 1]) simp
    done
qed




end
